theory Spec2Isabelle
  imports Complex_Main "HOL-Library.Char_ord" "HOL-Library.List_Lexorder"
begin

section \<open>The relational store (sql\_operation.py)\<close>

subsection \<open>Rows, tables and the database file\<close>

text \<open>
  The historical tables receive plain tuples (\<^verbatim>\<open>rows: list[tuple]\<close>):
  \<^item> \<^verbatim>\<open>Crypto_prices (coin_id, date, price_usd)\<close>, \<^verbatim>\<open>PRIMARY KEY (coin_id, date)\<close>;
  \<^item> \<^verbatim>\<open>oil_price (date, price_usd)\<close>, \<^verbatim>\<open>date PRIMARY KEY\<close>;
  \<^item> \<^verbatim>\<open>stock_price (date, open, high, low, close, volume, ticker)\<close>,
    \<^verbatim>\<open>PRIMARY KEY (ticker, date)\<close>.
  Dates and identifiers are strings; a price is a finite float, that is a rational; the
  volume is an integer. Every column of these three tables is \<^verbatim>\<open>NOT NULL\<close>, so a row
  has no optional field. The foreign key of \<^verbatim>\<open>Crypto_prices\<close> is never enforced: the
  code does not switch SQLite's foreign keys on.
\<close>

type_synonym crypto_price_row = "string \<times> string \<times> rat"
type_synonym oil_price_row = "string \<times> rat"
type_synonym stock_price_row = "string \<times> rat \<times> rat \<times> rat \<times> rat \<times> int \<times> string"

fun crypto_key :: "crypto_price_row \<Rightarrow> string \<times> string" where
  "crypto_key (coin_id, date, price_usd) = (coin_id, date)"

fun oil_key :: "oil_price_row \<Rightarrow> string" where
  "oil_key (date, price_usd) = date"

fun stock_key :: "stock_price_row \<Rightarrow> string \<times> string" where
  "stock_key (date, opn, high, low, close, volume, ticker) = (ticker, date)"

text \<open>
  A row of \<^verbatim>\<open>Cryptocurrencies\<close>: the twelve columns of \<^verbatim>\<open>COLUMNS\<close> in
  pandas\_operations.py; \<^verbatim>\<open>id\<close> is the primary key, \<^verbatim>\<open>symbol\<close> and \<^verbatim>\<open>name\<close> are
  \<^verbatim>\<open>NOT NULL\<close>, the others may be null. \<^verbatim>\<open>last_updated\<close> is the string that
  \<^verbatim>\<open>astype(str)\<close> produced.
\<close>

record coin =
  coin_id :: string
  symbol :: string
  name :: string
  current_price :: "rat option"
  market_cap :: "rat option"
  market_cap_rank :: "int option"
  total_volume :: "rat option"
  circulating_supply :: "rat option"
  total_supply :: "rat option"
  ath :: "rat option"
  atl :: "rat option"
  last_updated :: string

text \<open>
  A table is the list of its rows in rowid order; a table that was never created is
  \<open>None\<close>. The database file holds the four tables.
\<close>

record db =
  Cryptocurrencies :: "coin list option"
  Crypto_prices :: "crypto_price_row list option"
  oil_price :: "oil_price_row list option"
  stock_price :: "stock_price_row list option"

definition rows_of :: "'r list option \<Rightarrow> 'r list" where
  "rows_of t = (case t of None \<Rightarrow> [] | Some rs \<Rightarrow> rs)"

definition empty_db :: db where
  "empty_db = \<lparr>Cryptocurrencies = None, Crypto_prices = None, oil_price = None, stock_price = None\<rparr>"

datatype sql_error = IntegrityError | OperationalError

subsection \<open>Statements\<close>

text \<open>
  \<^verbatim>\<open>CREATE TABLE IF NOT EXISTS\<close> leaves an existing table alone.
  \<^verbatim>\<open>REPLACE INTO\<close> deletes the row that holds the new row's primary key, if there is
  one, and appends the new row. A plain \<^verbatim>\<open>INSERT\<close> (what \<^verbatim>\<open>to_sql(if_exists="append")\<close>
  issues) fails on a primary key that is already there.
\<close>

definition create_if_not_exists :: "'r list option \<Rightarrow> 'r list option" where
  "create_if_not_exists t = (case t of None \<Rightarrow> Some [] | Some rs \<Rightarrow> Some rs)"

definition replace_into :: "('r \<Rightarrow> 'k) \<Rightarrow> 'r \<Rightarrow> 'r list \<Rightarrow> 'r list" where
  "replace_into key r tbl = filter (\<lambda>x. key x \<noteq> key r) tbl @ [r]"

definition insert_into :: "('r \<Rightarrow> 'k) \<Rightarrow> 'r \<Rightarrow> 'r list \<Rightarrow> sql_error + 'r list" where
  "insert_into key r tbl = (if key r \<in> set (map key tbl) then Inl IntegrityError else Inr (tbl @ [r]))"

datatype stmt =
    CREATE_Cryptocurrencies
  | CREATE_Crypto_prices
  | CREATE_oil_price
  | CREATE_stock_price
  | DELETE_FROM_Cryptocurrencies
  | INSERT_Cryptocurrencies coin
  | REPLACE_Crypto_prices crypto_price_row
  | REPLACE_oil_price oil_price_row
  | REPLACE_stock_price stock_price_row

fun exec_stmt :: "stmt \<Rightarrow> db \<Rightarrow> sql_error + db" where
  "exec_stmt CREATE_Cryptocurrencies d =
     Inr (d\<lparr>Cryptocurrencies := create_if_not_exists (Cryptocurrencies d)\<rparr>)"
| "exec_stmt CREATE_Crypto_prices d =
     Inr (d\<lparr>Crypto_prices := create_if_not_exists (Crypto_prices d)\<rparr>)"
| "exec_stmt CREATE_oil_price d =
     Inr (d\<lparr>oil_price := create_if_not_exists (oil_price d)\<rparr>)"
| "exec_stmt CREATE_stock_price d =
     Inr (d\<lparr>stock_price := create_if_not_exists (stock_price d)\<rparr>)"
| "exec_stmt DELETE_FROM_Cryptocurrencies d =
     (case Cryptocurrencies d of
        None \<Rightarrow> Inl OperationalError
      | Some rs \<Rightarrow> Inr (d\<lparr>Cryptocurrencies := Some []\<rparr>))"
| "exec_stmt (INSERT_Cryptocurrencies r) d =
     (case Cryptocurrencies d of
        None \<Rightarrow> Inl OperationalError
      | Some rs \<Rightarrow>
          (case insert_into coin_id r rs of
             Inl e \<Rightarrow> Inl e
           | Inr rs' \<Rightarrow> Inr (d\<lparr>Cryptocurrencies := Some rs'\<rparr>)))"
| "exec_stmt (REPLACE_Crypto_prices r) d =
     (case Crypto_prices d of
        None \<Rightarrow> Inl OperationalError
      | Some rs \<Rightarrow> Inr (d\<lparr>Crypto_prices := Some (replace_into crypto_key r rs)\<rparr>))"
| "exec_stmt (REPLACE_oil_price r) d =
     (case oil_price d of
        None \<Rightarrow> Inl OperationalError
      | Some rs \<Rightarrow> Inr (d\<lparr>oil_price := Some (replace_into oil_key r rs)\<rparr>))"
| "exec_stmt (REPLACE_stock_price r) d =
     (case stock_price d of
        None \<Rightarrow> Inl OperationalError
      | Some rs \<Rightarrow> Inr (d\<lparr>stock_price := Some (replace_into stock_key r rs)\<rparr>))"

subsection \<open>Connections and transactions\<close>

text \<open>
  A connection sees the committed file \<open>disk\<close>, which is what every other reader sees,
  and the uncommitted work of its open transaction \<open>txn\<close>, if one is open. Python's
  sqlite3 module opens a transaction before a data-changing statement (\<^verbatim>\<open>INSERT\<close>,
  \<^verbatim>\<open>REPLACE\<close>, \<^verbatim>\<open>DELETE\<close>) and not before \<^verbatim>\<open>CREATE TABLE\<close>, which takes effect at
  once when no transaction is open. A failing statement changes nothing.
  \<^verbatim>\<open>commit\<close> publishes the transaction, \<^verbatim>\<open>rollback\<close> and \<^verbatim>\<open>close\<close> drop it.
\<close>

record conn =
  disk :: db
  txn :: "db option"

definition get_connection :: "db \<Rightarrow> conn" where
  "get_connection d = \<lparr>disk = d, txn = None\<rparr>"

fun is_dml :: "stmt \<Rightarrow> bool" where
  "is_dml CREATE_Cryptocurrencies = False"
| "is_dml CREATE_Crypto_prices = False"
| "is_dml CREATE_oil_price = False"
| "is_dml CREATE_stock_price = False"
| "is_dml s = True"

definition execute :: "stmt \<Rightarrow> conn \<Rightarrow> sql_error + conn" where
  "execute s c =
     (case txn c of
        Some w \<Rightarrow> (case exec_stmt s w of Inl e \<Rightarrow> Inl e | Inr w' \<Rightarrow> Inr (c\<lparr>txn := Some w'\<rparr>))
      | None \<Rightarrow>
          (case exec_stmt s (disk c) of
             Inl e \<Rightarrow> Inl e
           | Inr d' \<Rightarrow> if is_dml s then Inr (c\<lparr>txn := Some d'\<rparr>) else Inr (c\<lparr>disk := d'\<rparr>)))"

definition commit :: "conn \<Rightarrow> conn" where
  "commit c = (case txn c of None \<Rightarrow> c | Some w \<Rightarrow> \<lparr>disk = w, txn = None\<rparr>)"

definition rollback :: "conn \<Rightarrow> conn" where
  "rollback c = c\<lparr>txn := None\<rparr>"

definition close :: "conn \<Rightarrow> db" where
  "close c = disk c"

text \<open>
  The operations a function issues on its connection, in order. \<open>run\<close> stops at the
  first statement that raises and hands back the connection as it is then.
\<close>

datatype op = Execute stmt | Commit

fun run :: "op list \<Rightarrow> conn \<Rightarrow> sql_error option \<times> conn" where
  "run [] c = (None, c)"
| "run (Commit # ops) c = run ops (commit c)"
| "run (Execute s # ops) c =
     (case execute s c of Inl e \<Rightarrow> (Some e, c) | Inr c' \<Rightarrow> run ops c')"

subsection \<open>The insert functions\<close>

text \<open>
  \<^verbatim>\<open>create_*_table(conn)\<close> executes the \<^verbatim>\<open>CREATE\<close> statement and commits.
  \<^verbatim>\<open>insert_*\<close> then runs \<^verbatim>\<open>executemany\<close> of the \<^verbatim>\<open>REPLACE\<close> statement over the rows in
  list order, commits and returns \<^verbatim>\<open>len(rows)\<close>. The \<open>_on\<close> functions are the body on a
  given connection; the plain ones are the call with \<^verbatim>\<open>conn=None\<close>, which opens a
  connection and closes it in \<^verbatim>\<open>finally\<close>.
\<close>

definition insert_crypto_prices_ops :: "crypto_price_row list \<Rightarrow> op list" where
  "insert_crypto_prices_ops rows =
     [Execute CREATE_Crypto_prices, Commit] @ map (\<lambda>r. Execute (REPLACE_Crypto_prices r)) rows @ [Commit]"

definition insert_oil_prices_ops :: "oil_price_row list \<Rightarrow> op list" where
  "insert_oil_prices_ops rows =
     [Execute CREATE_oil_price, Commit] @ map (\<lambda>r. Execute (REPLACE_oil_price r)) rows @ [Commit]"

definition insert_stock_prices_ops :: "stock_price_row list \<Rightarrow> op list" where
  "insert_stock_prices_ops rows =
     [Execute CREATE_stock_price, Commit] @ map (\<lambda>r. Execute (REPLACE_stock_price r)) rows @ [Commit]"

definition returning :: "nat \<Rightarrow> sql_error option \<times> conn \<Rightarrow> (sql_error + nat) \<times> conn" where
  "returning count res = (case res of (Some e, c) \<Rightarrow> (Inl e, c) | (None, c) \<Rightarrow> (Inr count, c))"

definition insert_crypto_prices_on :: "crypto_price_row list \<Rightarrow> conn \<Rightarrow> (sql_error + nat) \<times> conn" where
  "insert_crypto_prices_on rows c = returning (length rows) (run (insert_crypto_prices_ops rows) c)"

definition insert_oil_prices_on :: "oil_price_row list \<Rightarrow> conn \<Rightarrow> (sql_error + nat) \<times> conn" where
  "insert_oil_prices_on rows c = returning (length rows) (run (insert_oil_prices_ops rows) c)"

definition insert_stock_prices_on :: "stock_price_row list \<Rightarrow> conn \<Rightarrow> (sql_error + nat) \<times> conn" where
  "insert_stock_prices_on rows c = returning (length rows) (run (insert_stock_prices_ops rows) c)"

definition own_conn :: "(conn \<Rightarrow> 'a \<times> conn) \<Rightarrow> db \<Rightarrow> 'a \<times> db" where
  "own_conn body d = (case body (get_connection d) of (res, c) \<Rightarrow> (res, close c))"

definition insert_crypto_prices :: "crypto_price_row list \<Rightarrow> db \<Rightarrow> (sql_error + nat) \<times> db" where
  "insert_crypto_prices rows = own_conn (insert_crypto_prices_on rows)"

definition insert_oil_prices :: "oil_price_row list \<Rightarrow> db \<Rightarrow> (sql_error + nat) \<times> db" where
  "insert_oil_prices rows = own_conn (insert_oil_prices_on rows)"

definition insert_stock_prices :: "stock_price_row list \<Rightarrow> db \<Rightarrow> (sql_error + nat) \<times> db" where
  "insert_stock_prices rows = own_conn (insert_stock_prices_on rows)"

text \<open>
  \<^verbatim>\<open>push_dataframe_to_table\<close>: create the table (and commit), \<^verbatim>\<open>DELETE FROM
  Cryptocurrencies\<close>, then \<^verbatim>\<open>df.to_sql(..., if_exists="append")\<close>, which inserts the rows of
  the frame one after the other on the same connection and commits; when an insert
  fails it rolls the connection back and raises. \<^verbatim>\<open>conn.commit()\<close> follows.
\<close>

definition push_dataframe_ops :: "coin list \<Rightarrow> op list" where
  "push_dataframe_ops df =
     [Execute CREATE_Cryptocurrencies, Commit, Execute DELETE_FROM_Cryptocurrencies]
     @ map (\<lambda>r. Execute (INSERT_Cryptocurrencies r)) df @ [Commit, Commit]"

definition push_dataframe_to_table_on :: "coin list \<Rightarrow> conn \<Rightarrow> (sql_error + nat) \<times> conn" where
  "push_dataframe_to_table_on df c =
     (case run (push_dataframe_ops df) c of
        (Some e, c') \<Rightarrow> (Inl e, rollback c')
      | (None, c') \<Rightarrow> (Inr (length df), c'))"

definition push_dataframe_to_table :: "coin list \<Rightarrow> db \<Rightarrow> (sql_error + nat) \<times> db" where
  "push_dataframe_to_table df = own_conn (push_dataframe_to_table_on df)"

text \<open>The batch as one table operation: every row replaced into the table, in list order.\<close>

definition replace_all :: "('r \<Rightarrow> 'k) \<Rightarrow> 'r list \<Rightarrow> 'r list \<Rightarrow> 'r list" where
  "replace_all key rows tbl = foldl (\<lambda>t r. replace_into key r t) tbl rows"

text \<open>The rows of a batch that are the last ones with their key, in list order.\<close>

fun last_per_key :: "('r \<Rightarrow> 'k) \<Rightarrow> 'r list \<Rightarrow> 'r list" where
  "last_per_key key [] = []"
| "last_per_key key (r # rs) =
     (if key r \<in> set (map key rs) then last_per_key key rs else r # last_per_key key rs)"

text \<open>The primary key constraint of a table: no two rows share a key.\<close>

definition unique_key :: "('r \<Rightarrow> 'k) \<Rightarrow> 'r list \<Rightarrow> bool" where
  "unique_key key tbl = distinct (map key tbl)"

definition lookup :: "('r \<Rightarrow> 'k) \<Rightarrow> 'k \<Rightarrow> 'r list \<Rightarrow> 'r list" where
  "lookup key k tbl = filter (\<lambda>x. key x = k) tbl"

subsection \<open>Notions used in the statements about the store\<close>

text \<open>What a connection reads: its own uncommitted work, if any, else the file.\<close>

definition view :: "conn \<Rightarrow> db" where
  "view c = (case txn c of None \<Rightarrow> disk c | Some w \<Rightarrow> w)"

fun no_commit :: "op list \<Rightarrow> bool" where
  "no_commit [] = True"
| "no_commit (Commit # ops) = False"
| "no_commit (Execute s # ops) = no_commit ops"

text \<open>
  \<open>upserted key rows old new\<close>: table \<open>new\<close> is \<open>old\<close> after an upsert of the batch \<open>rows\<close>:
  no key occurs twice, the keys are those of \<open>old\<close> and of the batch, every key of the
  batch holds the last row the batch has for it, and the rows whose key the batch does
  not hold are the rows of \<open>old\<close>, unchanged and in the same order.
\<close>

definition upserted :: "('r \<Rightarrow> 'k) \<Rightarrow> 'r list \<Rightarrow> 'r list \<Rightarrow> 'r list \<Rightarrow> bool" where
  "upserted key rows old new \<longleftrightarrow>
     unique_key key new \<and>
     set (map key new) = set (map key old) \<union> set (map key rows) \<and>
     (\<forall>r\<in>set rows. lookup key (key r) new = [last (lookup key (key r) rows)]) \<and>
     filter (\<lambda>x. key x \<notin> set (map key rows)) new = filter (\<lambda>x. key x \<notin> set (map key rows)) old"

text \<open>A coin row with the nullable columns null, for concrete instances.\<close>

definition plain_coin :: "string \<Rightarrow> string \<Rightarrow> string \<Rightarrow> coin" where
  "plain_coin i s n =
     \<lparr>coin_id = i, symbol = s, name = n, current_price = None, market_cap = None,
      market_cap_rank = None, total_volume = None, circulating_supply = None,
      total_supply = None, ath = None, atl = None, last_updated = ''2024-01-01''\<rparr>"

text \<open>A database file with a row or two in every table, for concrete instances.\<close>

definition stored_db :: db where
  "stored_db =
     \<lparr>Cryptocurrencies = Some [plain_coin ''tether'' ''usdt'' ''Tether''],
      Crypto_prices = Some [(''bitcoin'', ''2024-01-01'', 42000), (''ethereum'', ''2024-01-01'', 2300)],
      oil_price = Some [(''2024-01-02'', 70)],
      stock_price = Some [(''2024-01-02'', 1, 2, 1, 2, 10, ''GSPC'')]\<rparr>"

text \<open>
  What every reader of the database file sees when the process running
  \<^verbatim>\<open>push_dataframe_to_table\<close> with its own connection stops after the first \<open>k\<close>
  operations of the refresh: the committed file at that moment.
\<close>

definition interrupted_refresh :: "nat \<Rightarrow> coin list \<Rightarrow> db \<Rightarrow> db" where
  "interrupted_refresh k df d = disk (snd (run (take k (push_dataframe_ops df)) (get_connection d)))"

section \<open>The crypto daily-price normalizer (coin\_daily\_price.py)\<close>

subsection \<open>Exceptions\<close>

text \<open>
  The exceptions of the fetch and normalize code. \<open>HTTPError\<close> carries the status code
  that \<^verbatim>\<open>raise_for_status\<close> refused; \<open>DateOutOfRange\<close> is what
  \<^verbatim>\<open>datetime.fromtimestamp\<close> raises for an instant outside the years 1 to 9999;
  \<open>NameError\<close> is the read of a variable that no statement has assigned yet.
\<close>

datatype exn =
    HTTPError nat
  | ConnectionError
  | JSONDecodeError
  | DateOutOfRange
  | YFRateLimitError
  | YFOtherError
  | NameError

subsection \<open>The UTC calendar day of a millisecond timestamp\<close>

text \<open>
  \<^verbatim>\<open>datetime.fromtimestamp(ts_ms / 1000, tz=timezone.utc).strftime("%Y-%m-%d")\<close> for an
  integer \<^verbatim>\<open>ts_ms\<close>: the day number is \<open>ts_ms div 86400000\<close> (floor), the civil date of a
  day number is computed in the proleptic Gregorian calendar, and the date is printed
  with a four-digit year and two-digit month and day.
\<close>

definition civil_from_days :: "int \<Rightarrow> int \<times> int \<times> int" where
  "civil_from_days z0 =
     (let z = z0 + 719468;
          era = z div 146097;
          doe = z mod 146097;
          yoe = (doe - doe div 1460 + doe div 36524 - doe div 146096) div 365;
          doy = doe - (365 * yoe + yoe div 4 - yoe div 100);
          mp = (5 * doy + 2) div 153;
          d = doy - (153 * mp + 2) div 5 + 1;
          m = (if mp < 10 then mp + 3 else mp - 9);
          y = yoe + era * 400 + (if m \<le> 2 then 1 else 0)
      in (y, m, d))"

definition digit :: "int \<Rightarrow> char" where
  "digit n = ''0123456789'' ! nat (n mod 10)"

definition strftime_Ymd :: "int \<times> int \<times> int \<Rightarrow> string" where
  "strftime_Ymd ymd =
     (case ymd of (y, m, d) \<Rightarrow>
        [digit (y div 1000), digit (y div 100), digit (y div 10), digit y] @ ''-'' @
        [digit (m div 10), digit m] @ ''-'' @ [digit (d div 10), digit d])"

definition utc_day :: "int \<Rightarrow> exn + string" where
  "utc_day ts_ms =
     (let days = ts_ms div 86400000
      in if days < -719162 \<or> 2932896 < days then Inl DateOutOfRange
         else Inr (strftime_Ymd (civil_from_days days)))"

subsection \<open>Raw payloads\<close>

text \<open>
  The raw data is a dict from coin id to the API response of that coin, in insertion
  order. Of a response only the entry \<^verbatim>\<open>"prices"\<close> is read: it is absent, null, or a list
  of pairs \<^verbatim>\<open>[ts_ms, price]\<close>.
\<close>

datatype 'a entry = Missing | Null | Value 'a

type_synonym sample = "int \<times> rat"
type_synonym api_data = "sample list entry"

text \<open>\<^verbatim>\<open>api_data.get("prices") or []\<close>\<close>

fun prices_or_empty :: "api_data \<Rightarrow> sample list" where
  "prices_or_empty Missing = []"
| "prices_or_empty Null = []"
| "prices_or_empty (Value ps) = ps"

text \<open>
  A Python dict as an association list in insertion order: assigning to a key that is
  present overwrites the value in place, a new key goes to the end.
\<close>

fun dict_set :: "'k \<Rightarrow> 'v \<Rightarrow> ('k \<times> 'v) list \<Rightarrow> ('k \<times> 'v) list" where
  "dict_set k v [] = [(k, v)]"
| "dict_set k v ((k', v') # m) = (if k' = k then (k, v) # m else (k', v') # dict_set k v m)"

text \<open>
  The inner loop, filling \<^verbatim>\<open>by_date\<close>. The rounding \<^verbatim>\<open>round(float(price), 6)\<close> is the
  parameter \<open>round_price\<close>, instantiated below by \<open>decimal_round6\<close>; what does not depend
  on the rounding is proved for every \<open>round_price\<close>.
\<close>

fun group_by_date :: "(rat \<Rightarrow> rat) \<Rightarrow> sample list \<Rightarrow> (string \<times> rat) list \<Rightarrow> exn + (string \<times> rat) list" where
  "group_by_date round_price [] by_date = Inr by_date"
| "group_by_date round_price ((ts_ms, price) # prices) by_date =
     (case utc_day ts_ms of
        Inl e \<Rightarrow> Inl e
      | Inr day \<Rightarrow> group_by_date round_price prices (dict_set day (round_price price) by_date))"

text \<open>
  The outer loop over \<^verbatim>\<open>raw_data.items()\<close>, with the accumulated \<^verbatim>\<open>rows\<close>.
  \<^verbatim>\<open>sorted(by_date.items())\<close> orders the pairs by their date string, the keys of a dict
  being distinct.
\<close>

fun process_loop :: "(rat \<Rightarrow> rat) \<Rightarrow> (string \<times> api_data) list \<Rightarrow> crypto_price_row list \<Rightarrow> exn + crypto_price_row list" where
  "process_loop round_price [] rows = Inr rows"
| "process_loop round_price ((cid, api_data) # rest) rows =
     (case group_by_date round_price (prices_or_empty api_data) [] of
        Inl e \<Rightarrow> Inl e
      | Inr by_date \<Rightarrow>
          process_loop round_price rest
            (rows @ map (\<lambda>(date, price_usd). (cid, date, price_usd)) (sort_key fst by_date)))"

definition process_prices_to_rows :: "(rat \<Rightarrow> rat) \<Rightarrow> (string \<times> api_data) list \<Rightarrow> exn + crypto_price_row list" where
  "process_prices_to_rows round_price raw_data = process_loop round_price raw_data []"

text \<open>
  \<^verbatim>\<open>round(float(price), 6)\<close>: rounding to six decimals, half to even. Prices are exact
  rationals here, so the result is the nearest multiple of one millionth of the number
  itself; the binary representation error of a Python float is not modelled.
\<close>

definition round_half_even :: "rat \<Rightarrow> int" where
  "round_half_even x =
     (let f = \<lfloor>x\<rfloor>; r = x - of_int f
      in if r < 1/2 then f else if 1/2 < r then f + 1 else if even f then f else f + 1)"

definition decimal_round6 :: "rat \<Rightarrow> rat" where
  "decimal_round6 x = of_int (round_half_even (x * 1000000)) / 1000000"

text \<open>A number with at most six decimals: a whole multiple of one millionth.\<close>

definition six_decimals :: "rat \<Rightarrow> bool" where
  "six_decimals x \<longleftrightarrow> of_int \<lfloor>x * 1000000\<rfloor> = x * 1000000"

section \<open>The query layer (data\_report.py)\<close>

text \<open>
  \<^verbatim>\<open>A LEFT JOIN B ON c\<close>: every row of \<open>A\<close> with each row of \<open>B\<close> that matches it, or once with
  nulls when none does.
\<close>

definition left_join :: "'a list \<Rightarrow> 'b list \<Rightarrow> ('a \<Rightarrow> 'b \<Rightarrow> bool) \<Rightarrow> ('a \<times> 'b option) list" where
  "left_join ls rs on =
     concat (map (\<lambda>l. case filter (on l) rs of
                           [] \<Rightarrow> [(l, None)]
                         | m # ms \<Rightarrow> map (\<lambda>r. (l, Some r)) (m # ms)) ls)"

text \<open>\<^verbatim>\<open>SELECT date, price_usd FROM Crypto_prices WHERE coin_id = c\<close>\<close>

definition date_price_of_coin :: "string \<Rightarrow> crypto_price_row list \<Rightarrow> (string \<times> rat) list" where
  "date_price_of_coin c tbl =
     map (\<lambda>(cid, date, price_usd). (date, price_usd)) (filter (\<lambda>(cid, date, price_usd). cid = c) tbl)"

text \<open>\<^verbatim>\<open>SELECT date, close FROM stock_price WHERE ticker = t\<close>\<close>

definition date_close_of_ticker :: "string \<Rightarrow> stock_price_row list \<Rightarrow> (string \<times> rat) list" where
  "date_close_of_ticker t tbl =
     map (\<lambda>(date, opn, high, low, close, volume, ticker). (date, close))
       (filter (\<lambda>(date, opn, high, low, close, volume, ticker). ticker = t) tbl)"

text \<open>
  The daily market snapshot of \<^verbatim>\<open>page_filters_exploration\<close>: \<^verbatim>\<open>oil_price o\<close> left-joined
  on the date with the bitcoin prices \<^verbatim>\<open>b\<close>, the closes of ticker \<^verbatim>\<open>^GSPC\<close> (\<^verbatim>\<open>s\<close>) and
  the closes of ticker \<^verbatim>\<open>^NSEI\<close> (\<^verbatim>\<open>n\<close>), restricted to \<^verbatim>\<open>o.date >= ? AND o.date <= ?\<close>, ordered by \<^verbatim>\<open>o.date\<close>.
  A result row is \<^verbatim>\<open>(date, btc_price, oil_price, sp500_close, nifty_close)\<close>. Dates are
  compared as strings. The query fails when one of the three tables does not exist.
\<close>

type_synonym snapshot_row = "string \<times> rat option \<times> rat \<times> rat option \<times> rat option"

definition snapshot_sql :: "db \<Rightarrow> string \<Rightarrow> string \<Rightarrow> sql_error + snapshot_row list" where
  "snapshot_sql d start_s end_s =
     (case (oil_price d, Crypto_prices d, stock_price d) of
        (Some oil, Some cp, Some sp) \<Rightarrow>
          (let b = date_price_of_coin ''bitcoin'' cp;
               s = date_close_of_ticker ''^GSPC'' sp;
               n = date_close_of_ticker ''^NSEI'' sp;
               j1 = left_join oil b (\<lambda>ro rb. fst ro = fst rb);
               j2 = left_join j1 s (\<lambda>(ro, rb) rs. fst ro = fst rs);
               j3 = left_join j2 n (\<lambda>((ro, rb), rs) rn. fst ro = fst rn);
               w = filter (\<lambda>(((ro, rb), rs), rn). start_s \<le> fst ro \<and> fst ro \<le> end_s) j3;
               r = sort_key (\<lambda>(((ro, rb), rs), rn). fst ro) w
           in Inr (map (\<lambda>(((ro, rb), rs), rn).
                      (fst ro, map_option snd rb, snd ro, map_option snd rs, map_option snd rn)) r))
      | _ \<Rightarrow> Inl OperationalError)"

text \<open>The stored value for a key, if a row with that key is stored.\<close>

definition price_on :: "string \<Rightarrow> string \<Rightarrow> crypto_price_row list \<Rightarrow> rat option" where
  "price_on c date tbl = map_option (\<lambda>(cid, date, price_usd). price_usd) (find (\<lambda>r. crypto_key r = (c, date)) tbl)"

definition close_on :: "string \<Rightarrow> string \<Rightarrow> stock_price_row list \<Rightarrow> rat option" where
  "close_on t date tbl =
     map_option (\<lambda>(date, opn, high, low, close, volume, ticker). close)
       (find (\<lambda>r. stock_key r = (t, date)) tbl)"

text \<open>The stored commodity rows whose date lies in the range, ordered by date.\<close>

definition oil_rows_in_range :: "string \<Rightarrow> string \<Rightarrow> oil_price_row list \<Rightarrow> oil_price_row list" where
  "oil_rows_in_range start_s end_s oil =
     sort_key fst (filter (\<lambda>(date, price). start_s \<le> date \<and> date \<le> end_s) oil)"

text \<open>
  A database for concrete instances: three commodity dates, bitcoin and ethereum prices,
  and equity rows of three tickers of which two share a date with the commodity.
\<close>

definition report_db :: db where
  "report_db =
     \<lparr>Cryptocurrencies = Some [],
      Crypto_prices = Some [(''bitcoin'', ''2024-01-02'', 42000), (''ethereum'', ''2024-01-02'', 2300)],
      oil_price = Some [(''2024-01-03'', 71), (''2024-01-02'', 70), (''2024-01-05'', 73)],
      stock_price = Some [(''2024-01-02'', 1, 2, 1, 2, 10, ''^GSPC''),
                          (''2024-01-02'', 5, 6, 5, 6, 20, ''^NSEI''),
                          (''2024-01-03'', 3, 4, 3, 4, 30, ''^GSPC''),
                          (''2024-01-02'', 7, 8, 7, 8, 40, ''^IXIC'')]\<rparr>"

section \<open>The rate-limited fetchers\<close>

subsection \<open>The outside world\<close>

text \<open>
  What a fetcher asks for: the market chart of a coin, a page of the market listing, or
  the price history of a ticker.
\<close>

datatype request = MarketChart string | MarketsPage nat | TickerHistory string

text \<open>
  The reply to \<^verbatim>\<open>requests.get\<close>: a response with its status code and its body decoded as
  JSON (\<open>None\<close> when the body is not JSON), or no response at all, in which case
  \<^verbatim>\<open>requests.get\<close> raises a \<^verbatim>\<open>ConnectionError\<close>. A server is any function from the
  number of requests made before, and the request, to the reply.
\<close>

datatype 'j reply = Response nat "'j option" | NoConnection

type_synonym 'j server = "nat \<Rightarrow> request \<Rightarrow> 'j reply"

text \<open>
  The observable trace of a run: the requests sent, the sleeps, and the messages that
  report a failed or skipped unit (\<^verbatim>\<open>Error fetching ...\<close>, \<^verbatim>\<open>Skipping ... after retries.\<close>).
\<close>

datatype event = Get request | Sleep nat | Report request

fun is_Get :: "event \<Rightarrow> bool" where
  "is_Get (Get r) = True"
| "is_Get e = False"

definition requests_made :: "event list \<Rightarrow> nat" where
  "requests_made tr = length (filter is_Get tr)"

definition requests_get :: "'j server \<Rightarrow> request \<Rightarrow> event list \<Rightarrow> 'j reply \<times> event list" where
  "requests_get srv r tr = (srv (requests_made tr) r, tr @ [Get r])"

text \<open>\<^verbatim>\<open>raise_for_status\<close> raises for the status codes 400 to 599.\<close>

definition is_error_status :: "nat \<Rightarrow> bool" where
  "is_error_status code \<longleftrightarrow> 400 \<le> code \<and> code < 600"

text \<open>
  A \<^verbatim>\<open>for\<close> loop whose body may \<^verbatim>\<open>return\<close> (or \<^verbatim>\<open>break\<close>): each pass either ends the loop
  with a value or goes on to the next element; \<open>None\<close> is the loop running to its end.
\<close>

datatype 'a flow = Return 'a | Continue

fun for_loop :: "('i \<Rightarrow> 's \<Rightarrow> 'a flow \<times> 's) \<Rightarrow> 'i list \<Rightarrow> 's \<Rightarrow> 'a option \<times> 's" where
  "for_loop body [] s = (None, s)"
| "for_loop body (i # rest) s =
     (case body i s of
        (Return v, s') \<Rightarrow> (Some v, s')
      | (Continue, s') \<Rightarrow> for_loop body rest s')"

subsection \<open>Constants\<close>

text \<open>coin\_daily\_price.py and collect\_coingecko\_data.py\<close>

definition DELAY_SECONDS :: nat where "DELAY_SECONDS = 15"
definition RETRY_DELAY :: nat where "RETRY_DELAY = 60"
definition MAX_RETRIES :: nat where "MAX_RETRIES = 3"
definition NUM_PAGES :: nat where "NUM_PAGES = 5"

definition TOP_COIN_IDS :: "string list" where
  "TOP_COIN_IDS = [''bitcoin'', ''ethereum'', ''tether'', ''binancecoin'', ''solana'', ''ripple'',
                   ''usd-coin'', ''cardano'', ''avalanche-2'', ''dogecoin'']"

text \<open>stock\_price.py\<close>

definition TICKERS :: "string list" where "TICKERS = [''^GSPC'', ''^IXIC'', ''^NSEI'']"
definition DELAY_BETWEEN_TICKERS :: nat where "DELAY_BETWEEN_TICKERS = 3"
definition RATE_LIMIT_RETRIES :: nat where "RATE_LIMIT_RETRIES = 4"
definition RATE_LIMIT_WAIT_SEC :: nat where "RATE_LIMIT_WAIT_SEC = 45"

subsection \<open>One coin: \<^verbatim>\<open>fetch_market_chart\<close>\<close>

text \<open>
  \<^verbatim>\<open>return response.json()\<close> inside the \<^verbatim>\<open>try\<close>: a body that is not JSON raises a
  \<^verbatim>\<open>JSONDecodeError\<close>, which is a \<^verbatim>\<open>RequestException\<close> and so is caught, reported, and
  turned into \<^verbatim>\<open>None\<close>.
\<close>

definition return_json :: "request \<Rightarrow> 'j option \<Rightarrow> event list \<Rightarrow> 'j option flow \<times> event list" where
  "return_json unit body tr =
     (case body of Some j \<Rightarrow> (Return (Some j), tr) | None \<Rightarrow> (Return None, tr @ [Report unit]))"

text \<open>
  One pass of the loop of \<^verbatim>\<open>fetch_market_chart\<close>. After the sleep of a throttled attempt
  that is not the last, control leaves the \<^verbatim>\<open>if\<close> and reaches \<^verbatim>\<open>return response.json()\<close>.
  Every \<^verbatim>\<open>RequestException\<close> is caught: the failure is printed and \<^verbatim>\<open>None\<close> is returned.
\<close>

definition market_chart_attempt :: "'j server \<Rightarrow> string \<Rightarrow> nat \<Rightarrow> event list \<Rightarrow> 'j option flow \<times> event list" where
  "market_chart_attempt srv cid attempt tr =
     (case requests_get srv (MarketChart cid) tr of
        (NoConnection, tr1) \<Rightarrow> (Return None, tr1 @ [Report (MarketChart cid)])
      | (Response code body, tr1) \<Rightarrow>
          if code = 429 then
            (if attempt < MAX_RETRIES - 1
             then return_json (MarketChart cid) body (tr1 @ [Sleep RETRY_DELAY])
             else (Return None, tr1 @ [Report (MarketChart cid)]))
          else if is_error_status code then (Return None, tr1 @ [Report (MarketChart cid)])
          else return_json (MarketChart cid) body tr1)"

definition fetch_market_chart :: "'j server \<Rightarrow> string \<Rightarrow> event list \<Rightarrow> 'j option \<times> event list" where
  "fetch_market_chart srv cid tr =
     (case for_loop (market_chart_attempt srv cid) [0..<MAX_RETRIES] tr of
        (Some res, tr') \<Rightarrow> (res, tr')
      | (None, tr') \<Rightarrow> (None, tr'))"

text \<open>
  \<^verbatim>\<open>fetch_all_daily_prices\<close>: the loop over \<^verbatim>\<open>enumerate(TOP_COIN_IDS, 1)\<close>, with the dict
  \<^verbatim>\<open>result\<close>; \<open>n\<close> is \<^verbatim>\<open>len(TOP_COIN_IDS)\<close>.
\<close>

fun daily_prices_loop :: "'j server \<Rightarrow> nat \<Rightarrow> (nat \<times> string) list \<Rightarrow> (string \<times> 'j) list \<Rightarrow> event list
    \<Rightarrow> (string \<times> 'j) list \<times> event list" where
  "daily_prices_loop srv n [] result tr = (result, tr)"
| "daily_prices_loop srv n ((i, cid) # rest) result tr =
     (case fetch_market_chart srv cid tr of
        (data, tr1) \<Rightarrow>
          daily_prices_loop srv n rest
            (case data of None \<Rightarrow> result | Some j \<Rightarrow> dict_set cid j result)
            (if i < n then tr1 @ [Sleep DELAY_SECONDS] else tr1))"

definition enumerate_from :: "nat \<Rightarrow> 'a list \<Rightarrow> (nat \<times> 'a) list" where
  "enumerate_from k xs = zip [k..<k + length xs] xs"

definition fetch_daily_prices_of :: "string list \<Rightarrow> 'j server \<Rightarrow> event list \<Rightarrow> (string \<times> 'j) list \<times> event list" where
  "fetch_daily_prices_of coins srv tr =
     daily_prices_loop srv (length coins) (enumerate_from 1 coins) [] tr"

definition fetch_all_daily_prices :: "'j server \<Rightarrow> event list \<Rightarrow> (string \<times> 'j) list \<times> event list" where
  "fetch_all_daily_prices = fetch_daily_prices_of TOP_COIN_IDS"

subsection \<open>One page: \<^verbatim>\<open>fetch_page\<close>\<close>

text \<open>
  No \<^verbatim>\<open>try\<close> here: every exception leaves the function. The loop state holds the trace and
  the variable \<^verbatim>\<open>response\<close>, which the statement after the loop reads.
\<close>

definition json_or_raise :: "'j option \<Rightarrow> exn + 'j" where
  "json_or_raise body = (case body of Some j \<Rightarrow> Inr j | None \<Rightarrow> Inl JSONDecodeError)"

definition page_attempt :: "'j server \<Rightarrow> nat \<Rightarrow> nat \<Rightarrow> event list \<times> 'j reply option
    \<Rightarrow> (exn + 'j) flow \<times> (event list \<times> 'j reply option)" where
  "page_attempt srv page attempt st =
     (case requests_get srv (MarketsPage page) (fst st) of
        (NoConnection, tr1) \<Rightarrow> (Return (Inl ConnectionError), (tr1, snd st))
      | (Response code body, tr1) \<Rightarrow>
          if code = 429 then
            (if attempt < MAX_RETRIES - 1
             then (Continue, (tr1 @ [Sleep RETRY_DELAY], Some (Response code body)))
             else (Return (Inl (HTTPError code)), (tr1, Some (Response code body))))
          else if is_error_status code
               then (Return (Inl (HTTPError code)), (tr1, Some (Response code body)))
               else (Return (json_or_raise body), (tr1, Some (Response code body))))"

definition fetch_page :: "'j server \<Rightarrow> nat \<Rightarrow> event list \<Rightarrow> (exn + 'j) \<times> event list" where
  "fetch_page srv page tr =
     (case for_loop (page_attempt srv page) [0..<MAX_RETRIES] (tr, None) of
        (Some res, (tr', response)) \<Rightarrow> (res, tr')
      | (None, (tr', Some (Response code body))) \<Rightarrow> (json_or_raise body, tr')
      | (None, (tr', _)) \<Rightarrow> (Inl NameError, tr'))"

text \<open>
  \<^verbatim>\<open>fetch_all_pages\<close>: the loop over \<^verbatim>\<open>range(1, NUM_PAGES + 1)\<close>; a page is a list of
  coins, appended to \<^verbatim>\<open>all_data\<close>. An exception of \<^verbatim>\<open>fetch_page\<close> is not caught.
\<close>

fun all_pages_loop :: "'c list server \<Rightarrow> nat list \<Rightarrow> 'c list \<Rightarrow> event list \<Rightarrow> (exn + 'c list) \<times> event list" where
  "all_pages_loop srv [] all_data tr = (Inr all_data, tr)"
| "all_pages_loop srv (page # rest) all_data tr =
     (case fetch_page srv page tr of
        (Inl e, tr1) \<Rightarrow> (Inl e, tr1)
      | (Inr data, tr1) \<Rightarrow>
          all_pages_loop srv rest (all_data @ data)
            (if page < NUM_PAGES then tr1 @ [Sleep DELAY_SECONDS] else tr1))"

definition fetch_all_pages :: "'c list server \<Rightarrow> event list \<Rightarrow> (exn + 'c list) \<times> event list" where
  "fetch_all_pages srv tr = all_pages_loop srv [1..<NUM_PAGES + 1] [] tr"

text \<open>Servers for concrete instances.\<close>

definition always_throttling :: "'j \<Rightarrow> 'j server" where
  "always_throttling body = (\<lambda>n r. Response 429 (Some body))"

definition page_two_down :: "string list server" where
  "page_two_down = (\<lambda>n r. if r = MarketsPage 2 then Response 500 None else Response 200 (Some [''coin'']))"

section \<open>The equity download and normalizer (stock\_price.py)\<close>

text \<open>
  What \<^verbatim>\<open>yfinance\<close> answers to \<^verbatim>\<open>Ticker(t).history(...)\<close>: the daily bars, a
  \<^verbatim>\<open>YFRateLimitError\<close>, or another exception. A bar is the date of the index and the five
  columns Open, High, Low, Close, Volume, each of which may be missing (NaN).
\<close>

type_synonym bar = "string \<times> rat option \<times> rat option \<times> rat option \<times> rat option \<times> rat option"
type_synonym raw_row = "string \<times> rat option \<times> rat option \<times> rat option \<times> rat option \<times> rat option \<times> string"

datatype yf_reply = History "bar list" | RateLimited | Failed

type_synonym yf_server = "nat \<Rightarrow> string \<Rightarrow> yf_reply"

text \<open>\<^verbatim>\<open>ticker.replace("^", "")\<close>\<close>

definition remove_caret :: "string \<Rightarrow> string" where
  "remove_caret ticker = filter (\<lambda>c. c \<noteq> CHR ''^'') ticker"

text \<open>
  \<^verbatim>\<open>download_ticker_history\<close>: an empty frame is returned as it is; otherwise the five
  columns are kept and the column \<^verbatim>\<open>ticker\<close> is set to the ticker without its carets.
\<close>

definition ticker_frame :: "string \<Rightarrow> bar list \<Rightarrow> raw_row list" where
  "ticker_frame ticker bars =
     (if bars = [] then []
      else map (\<lambda>(date, opn, high, low, close, volume).
                  (date, opn, high, low, close, volume, remove_caret ticker)) bars)"

definition download_ticker_history :: "yf_server \<Rightarrow> string \<Rightarrow> event list \<Rightarrow> (exn + raw_row list) \<times> event list" where
  "download_ticker_history yf ticker tr =
     (case yf (requests_made tr) ticker of
        History bars \<Rightarrow>
          (Inr (ticker_frame ticker bars), tr @ [Get (TickerHistory ticker)])
      | RateLimited \<Rightarrow> (Inl YFRateLimitError, tr @ [Get (TickerHistory ticker)])
      | Failed \<Rightarrow> (Inl YFOtherError, tr @ [Get (TickerHistory ticker)]))"

text \<open>
  One pass of the retry loop of \<^verbatim>\<open>download_all_tickers\<close>. The loop state is the trace and
  the variable \<^verbatim>\<open>df\<close>. \<open>Return None\<close> is the \<^verbatim>\<open>break\<close>, \<open>Return (Some e)\<close> an exception that
  is not caught. On the last attempt a rate limit sets \<^verbatim>\<open>df\<close> to the empty frame and the
  loop runs out.
\<close>

definition ticker_attempt :: "yf_server \<Rightarrow> string \<Rightarrow> nat \<Rightarrow> event list \<times> raw_row list option
    \<Rightarrow> exn option flow \<times> (event list \<times> raw_row list option)" where
  "ticker_attempt yf t attempt st =
     (case download_ticker_history yf t (fst st) of
        (Inr frame, tr1) \<Rightarrow> (Return None, (tr1, Some frame))
      | (Inl e, tr1) \<Rightarrow>
          if e = YFRateLimitError then
            (if attempt < RATE_LIMIT_RETRIES
             then (Continue, (tr1 @ [Sleep RATE_LIMIT_WAIT_SEC], snd st))
             else (Continue, (tr1 @ [Report (TickerHistory t)], Some [])))
          else (Return (Some e), (tr1, snd st)))"

fun tickers_loop :: "yf_server \<Rightarrow> (nat \<times> string) list \<Rightarrow> raw_row list list \<Rightarrow> event list \<times> raw_row list option
    \<Rightarrow> (exn + raw_row list list) \<times> event list" where
  "tickers_loop yf [] frames st = (Inr frames, fst st)"
| "tickers_loop yf ((i, t) # rest) frames st =
     (case for_loop (ticker_attempt yf t) [1..<RATE_LIMIT_RETRIES + 1]
             (if 0 < i then fst st @ [Sleep DELAY_BETWEEN_TICKERS] else fst st, snd st) of
        (Some (Some e), st1) \<Rightarrow> (Inl e, fst st1)
      | (_, st1) \<Rightarrow>
          (case snd st1 of
             None \<Rightarrow> (Inl NameError, fst st1)
           | Some df \<Rightarrow> tickers_loop yf rest (if df \<noteq> [] then frames @ [df] else frames) st1))"

text \<open>
  \<^verbatim>\<open>dropna(subset=[...])\<close> followed by \<^verbatim>\<open>astype(int)\<close> on the volume: only rows with all
  five values reach the cast, which truncates towards zero.
\<close>

definition truncate_int :: "rat \<Rightarrow> int" where
  "truncate_int x = (if 0 \<le> x then \<lfloor>x\<rfloor> else \<lceil>x\<rceil>)"

fun dropna_astype_int :: "raw_row list \<Rightarrow> stock_price_row list" where
  "dropna_astype_int [] = []"
| "dropna_astype_int ((date, Some opn, Some high, Some low, Some cls, Some volume, ticker) # rows) =
     (date, opn, high, low, cls, truncate_int volume, ticker) # dropna_astype_int rows"
| "dropna_astype_int (row # rows) = dropna_astype_int rows"

definition download_all_tickers :: "yf_server \<Rightarrow> string list \<Rightarrow> event list \<Rightarrow> (exn + stock_price_row list) \<times> event list" where
  "download_all_tickers yf tickers tr =
     (case tickers_loop yf (enumerate_from 0 tickers) [] (tr, None) of
        (Inl e, tr') \<Rightarrow> (Inl e, tr')
      | (Inr frames, tr') \<Rightarrow>
          (Inr (if frames = [] then [] else sort_key fst (dropna_astype_int (concat frames))), tr'))"

text \<open>
  \<^verbatim>\<open>prepare_stock_price_rows\<close>: the tuple \<^verbatim>\<open>(date, open, high, low, close, volume, ticker)\<close>
  of every row, the four prices rounded by \<^verbatim>\<open>round(float(...), 6)\<close>.
\<close>

definition prepare_stock_price_rows :: "(rat \<Rightarrow> rat) \<Rightarrow> stock_price_row list \<Rightarrow> stock_price_row list" where
  "prepare_stock_price_rows round_price df =
     map (\<lambda>(date, opn, high, low, close, volume, ticker).
            (date, round_price opn, round_price high, round_price low, round_price close, volume, ticker)) df"

text \<open>
  \<^verbatim>\<open>main\<close> of stock\_price.py on a database file: download \<^verbatim>\<open>TICKERS\<close>, and unless the frame
  is empty, create the table and insert the prepared rows.
\<close>

definition stock_price_main :: "(rat \<Rightarrow> rat) \<Rightarrow> yf_server \<Rightarrow> db \<Rightarrow> (exn + sql_error + unit) \<times> db" where
  "stock_price_main round_price yf d =
     (case download_all_tickers yf TICKERS [] of
        (Inl e, tr) \<Rightarrow> (Inl e, d)
      | (Inr df, tr) \<Rightarrow>
          if df = [] then (Inr (Inr ()), d)
          else (case insert_stock_prices (prepare_stock_price_rows round_price df) d of
                  (Inl e, d') \<Rightarrow> (Inr (Inl e), d')
                | (Inr count, d') \<Rightarrow> (Inr (Inr ()), d')))"

text \<open>
  The first query of \<^verbatim>\<open>_queries_stock(ticker)\<close> in data\_report.py:
  \<^verbatim>\<open>SELECT * FROM stock_price WHERE ticker = ? ORDER BY date\<close>.
\<close>

definition all_stock_prices_for_ticker :: "string \<Rightarrow> db \<Rightarrow> sql_error + stock_price_row list" where
  "all_stock_prices_for_ticker ticker d =
     (case stock_price d of
        None \<Rightarrow> Inl OperationalError
      | Some tbl \<Rightarrow>
          Inr (sort_key fst (filter (\<lambda>(date, opn, high, low, close, volume, t). t = ticker) tbl)))"

text \<open>Servers of \<^verbatim>\<open>yfinance\<close> for concrete instances.\<close>

definition one_bar_each :: yf_server where
  "one_bar_each = (\<lambda>n t. History [(''2024-01-02'', Some 4700, Some 4750, Some 4690, Some 4740, Some 1000)])"

definition second_limited :: yf_server where
  "second_limited =
     (\<lambda>n t. if t = ''^IXIC'' then RateLimited
            else History [(''2024-01-02'', Some 4700, Some 4750, Some 4690, Some 4740, Some 1000)])"

subsection \<open>Units that fail\<close>

text \<open>
  A coin whose fetch fails whenever it is tried: the connection fails, or the response
  has an error status other than 429. A page whose fetch fails whenever it is tried: the
  connection fails, or the response has an error status, 429 included.
\<close>

definition failing_reply :: "'j reply \<Rightarrow> bool" where
  "failing_reply r = (case r of NoConnection \<Rightarrow> True | Response code body \<Rightarrow> is_error_status code)"

definition throttled_reply :: "'j reply \<Rightarrow> bool" where
  "throttled_reply r = (case r of NoConnection \<Rightarrow> False | Response code body \<Rightarrow> code = 429)"

definition coin_always_fails :: "'j server \<Rightarrow> string \<Rightarrow> bool" where
  "coin_always_fails srv c \<longleftrightarrow>
     (\<forall>n. failing_reply (srv n (MarketChart c)) \<and> \<not> throttled_reply (srv n (MarketChart c)))"

definition page_always_fails :: "'j server \<Rightarrow> nat \<Rightarrow> bool" where
  "page_always_fails srv p \<longleftrightarrow> (\<forall>n. failing_reply (srv n (MarketsPage p)))"

text \<open>A server for concrete instances: tether answers 500, every other coin its chart.\<close>

definition tether_down :: "nat server" where
  "tether_down = (\<lambda>n r. if r = MarketChart ''tether'' then Response 500 None else Response 200 (Some 7))"

section \<open>Properties of the store\<close>

lemma replace_all_Nil: "replace_all key [] tbl = tbl"
  by (simp add: replace_all_def)

lemma replace_all_Cons: "replace_all key (r # rs) tbl = replace_all key rs (replace_into key r tbl)"
  by (simp add: replace_all_def)

lemma set_last_per_key: "key ` set (last_per_key key rs) = key ` set rs"
  by (induction rs) auto

lemma last_per_key_subset: "set (last_per_key key rs) \<subseteq> set rs"
  by (induction rs) auto

lemma distinct_last_per_key: "distinct (map key (last_per_key key rs))"
proof (induction rs)
  case Nil
  show ?case by simp
next
  case (Cons r rs)
  have "key r \<notin> set (map key rs) \<Longrightarrow> key r \<notin> key ` set (last_per_key key rs)"
    by (simp add: set_last_per_key)
  with Cons show ?case by auto
qed

text \<open>
  The closed form of a batch of replacements: the old rows whose key the batch does not
  hold, in their old order, then the last row of the batch for each of its keys.
\<close>

lemma replace_all_closed:
  "replace_all key rows tbl =
     filter (\<lambda>x. key x \<notin> set (map key rows)) tbl @ last_per_key key rows"
proof (induction rows arbitrary: tbl)
  case Nil
  show ?case by (simp add: replace_all_Nil)
next
  case (Cons r rs)
  have "replace_all key (r # rs) tbl = replace_all key rs (replace_into key r tbl)"
    by (rule replace_all_Cons)
  also have "\<dots> = filter (\<lambda>x. key x \<notin> set (map key rs)) (replace_into key r tbl) @ last_per_key key rs"
    by (rule Cons.IH)
  also have "\<dots> = filter (\<lambda>x. key x \<notin> set (map key (r # rs))) tbl @ last_per_key key (r # rs)"
    by (auto simp: replace_into_def intro: filter_cong)
  finally show ?case .
qed

lemma lookup_last_per_key:
  "k \<in> set (map key rs) \<Longrightarrow> lookup key k (last_per_key key rs) = [last (lookup key k rs)]"
proof (induction rs)
  case Nil
  then show ?case by simp
next
  case (Cons r rs)
  show ?case
  proof (cases "k \<in> set (map key rs)")
    case True
    then have ne: "lookup key k rs \<noteq> []"
      by (auto simp: lookup_def filter_empty_conv)
    from True Cons.IH have "lookup key k (last_per_key key rs) = [last (lookup key k rs)]" by simp
    with True ne show ?thesis by (auto simp: lookup_def)
  next
    case False
    with Cons.prems have k: "key r = k" by auto
    from False have e: "lookup key k rs = []"
      by (auto simp: lookup_def filter_empty_conv)
    have "set (last_per_key key rs) \<subseteq> set rs" by (rule last_per_key_subset)
    with False have e2: "lookup key k (last_per_key key rs) = []"
      by (auto simp: lookup_def filter_empty_conv)
    from k False e e2 show ?thesis by (auto simp: lookup_def)
  qed
qed

lemma lookup_replace_all:
  assumes "r \<in> set rows"
  shows "lookup key (key r) (replace_all key rows tbl) = [last (lookup key (key r) rows)]"
proof -
  have "lookup key (key r) (filter (\<lambda>x. key x \<notin> set (map key rows)) tbl) = []"
    using assms by (auto simp: lookup_def filter_empty_conv)
  moreover have "lookup key (key r) (last_per_key key rows) = [last (lookup key (key r) rows)]"
    using assms by (intro lookup_last_per_key) simp
  ultimately show ?thesis
    by (simp add: replace_all_closed lookup_def)
qed

lemma untouched_replace_all:
  "filter (\<lambda>x. key x \<notin> set (map key rows)) (replace_all key rows tbl) =
   filter (\<lambda>x. key x \<notin> set (map key rows)) tbl"
proof -
  have "filter (\<lambda>x. key x \<notin> set (map key rows)) (last_per_key key rows) = []"
    using last_per_key_subset [of key rows] by (auto simp: filter_empty_conv)
  then show ?thesis by (simp add: replace_all_closed)
qed

lemma keys_replace_all:
  "set (map key (replace_all key rows tbl)) = set (map key tbl) \<union> set (map key rows)"
  using set_last_per_key [of key rows] by (auto simp: replace_all_closed)

lemma unique_key_replace_all:
  assumes "unique_key key tbl"
  shows "unique_key key (replace_all key rows tbl)"
proof -
  have 1: "distinct (map key (filter (\<lambda>x. key x \<notin> set (map key rows)) tbl))"
    using assms by (simp add: unique_key_def distinct_map_filter)
  have 2: "distinct (map key (last_per_key key rows))" by (rule distinct_last_per_key)
  have 3: "set (map key (filter (\<lambda>x. key x \<notin> set (map key rows)) tbl)) \<inter> set (map key (last_per_key key rows)) = {}"
    using set_last_per_key [of key rows] by auto
  from 1 2 3 show ?thesis
    by (simp add: unique_key_def replace_all_closed)
qed

lemma upserted_replace_all:
  "unique_key key tbl \<Longrightarrow> upserted key rows tbl (replace_all key rows tbl)"
  unfolding upserted_def
  by (intro conjI ballI unique_key_replace_all keys_replace_all lookup_replace_all untouched_replace_all)

lemma replace_all_idem: "replace_all key rows (replace_all key rows tbl) = replace_all key rows tbl"
proof -
  have "filter (\<lambda>x. key x \<notin> set (map key rows)) (replace_all key rows tbl) @ last_per_key key rows
        = filter (\<lambda>x. key x \<notin> set (map key rows)) tbl @ last_per_key key rows"
    by (simp only: untouched_replace_all)
  then show ?thesis by (simp only: replace_all_closed [symmetric])
qed

lemma run_append: "run (xs @ ys) c = (case run xs c of (Some e, c') \<Rightarrow> (Some e, c') | (None, c') \<Rightarrow> run ys c')"
proof (induction xs arbitrary: c)
  case Nil show ?case by simp
next
  case (Cons x xs)
  show ?case
  proof (cases x)
    case (Execute s)
    then show ?thesis using Cons by (simp split: sum.splits)
  next
    case Commit
    then show ?thesis using Cons by simp
  qed
qed

lemma run_replace_crypto:
  "Crypto_prices (view c) = Some t \<Longrightarrow>
   run (map (\<lambda>r. Execute (REPLACE_Crypto_prices r)) rows) c =
     (None, if rows = [] then c
            else c\<lparr>txn := Some ((view c)\<lparr>Crypto_prices := Some (replace_all crypto_key rows t)\<rparr>)\<rparr>)"
proof (induction rows arbitrary: c t)
  case Nil show ?case by simp
next
  case (Cons r rs)
  let ?c' = "c\<lparr>txn := Some ((view c)\<lparr>Crypto_prices := Some (replace_into crypto_key r t)\<rparr>)\<rparr>"
  have ex: "execute (REPLACE_Crypto_prices r) c = Inr ?c'"
    using Cons.prems by (cases "txn c") (simp_all add: execute_def view_def)
  have v: "Crypto_prices (view ?c') = Some (replace_into crypto_key r t)"
    by (simp add: view_def)
  have v2: "view ?c' = (view c)\<lparr>Crypto_prices := Some (replace_into crypto_key r t)\<rparr>"
    by (simp add: view_def)
  show ?case
    using Cons.IH [OF v] ex by (simp add: replace_all_Cons replace_all_Nil v2)
qed

lemma insert_crypto_prices_eq:
  "insert_crypto_prices rows d =
     (Inr (length rows),
      d\<lparr>Crypto_prices := Some (replace_all crypto_key rows (rows_of (Crypto_prices d)))\<rparr>)"
proof -
  let ?t = "rows_of (Crypto_prices d)"
  let ?c1 = "\<lparr>disk = d\<lparr>Crypto_prices := Some ?t\<rparr>, txn = None\<rparr>"
  have c: "create_if_not_exists (Crypto_prices d) = Some ?t"
    by (simp add: create_if_not_exists_def rows_of_def split: option.splits)
  have v: "Crypto_prices (view ?c1) = Some ?t" by (simp add: view_def)
  show ?thesis
    unfolding insert_crypto_prices_def own_conn_def insert_crypto_prices_on_def insert_crypto_prices_ops_def
    using run_replace_crypto [OF v, of rows]
    by (simp add: run_append get_connection_def execute_def commit_def c returning_def close_def view_def replace_all_Nil)
qed

lemma execute_insert_ok:
  assumes "txn c = Some w" "Cryptocurrencies w = Some t" "coin_id r \<notin> set (map coin_id t)"
  shows "execute (INSERT_Cryptocurrencies r) c = Inr (c\<lparr>txn := Some (w\<lparr>Cryptocurrencies := Some (t @ [r])\<rparr>)\<rparr>)"
  using assms by (simp add: execute_def insert_into_def)

lemma execute_insert_dup:
  assumes "txn c = Some w" "Cryptocurrencies w = Some t" "coin_id r \<in> set (map coin_id t)"
  shows "execute (INSERT_Cryptocurrencies r) c = Inl IntegrityError"
  using assms by (simp add: execute_def insert_into_def)

lemma execute_keeps_disk:
  "txn c = Some w \<Longrightarrow> execute s c = Inr c' \<Longrightarrow> disk c' = disk c \<and> txn c' \<noteq> None"
  by (auto simp: execute_def split: sum.splits)

lemma run_keeps_disk:
  "txn c = Some w \<Longrightarrow> no_commit ops \<Longrightarrow> disk (snd (run ops c)) = disk c \<and> txn (snd (run ops c)) \<noteq> None"
proof (induction ops arbitrary: c w)
  case Nil
  then show ?case by simp
next
  case (Cons x ops)
  show ?case
  proof (cases x)
    case Commit
    with Cons.prems show ?thesis by simp
  next
    case (Execute s)
    show ?thesis
    proof (cases "execute s c")
      case (Inl e)
      with Execute Cons.prems show ?thesis by simp
    next
      case (Inr c')
      from execute_keeps_disk [OF Cons.prems(1) Inr] obtain w' where
        d: "disk c' = disk c" and t: "txn c' = Some w'" by auto
      from Cons.prems Execute have "no_commit ops" by simp
      from Cons.IH [OF t this] d Execute Inr show ?thesis by simp
    qed
  qed
qed

lemma run_insert_coins_ok:
  assumes "txn c = Some w" "Cryptocurrencies w = Some t" "distinct (map coin_id (t @ df))"
  shows "run (map (\<lambda>r. Execute (INSERT_Cryptocurrencies r)) df) c =
           (None, c\<lparr>txn := Some (w\<lparr>Cryptocurrencies := Some (t @ df)\<rparr>)\<rparr>)"
  using assms
proof (induction df arbitrary: c w t)
  case Nil
  have "w\<lparr>Cryptocurrencies := Some t\<rparr> = w" using Nil(2) by (cases w) simp
  moreover have "c\<lparr>txn := Some w\<rparr> = c" using Nil(1) by (cases c) simp
  ultimately show ?case by simp
next
  case (Cons r df)
  let ?w' = "w\<lparr>Cryptocurrencies := Some (t @ [r])\<rparr>"
  let ?c' = "c\<lparr>txn := Some ?w'\<rparr>"
  from Cons.prems have "coin_id r \<notin> set (map coin_id t)" by auto
  from execute_insert_ok [OF Cons.prems(1,2) this]
  have ex: "execute (INSERT_Cryptocurrencies r) c = Inr ?c'" .
  have 1: "txn ?c' = Some ?w'" by simp
  have 2: "Cryptocurrencies ?w' = Some (t @ [r])" by simp
  have 3: "distinct (map coin_id ((t @ [r]) @ df))" using Cons.prems(3) by simp
  from Cons.IH [OF 1 2 3] ex show ?case by simp
qed

lemma run_insert_coins_dup:
  assumes "txn c = Some w" "Cryptocurrencies w = Some t" "\<not> distinct (map coin_id (t @ df))" "distinct (map coin_id t)"
  shows "fst (run (map (\<lambda>r. Execute (INSERT_Cryptocurrencies r)) df) c) = Some IntegrityError"
  using assms
proof (induction df arbitrary: c w t)
  case Nil
  then show ?case by simp
next
  case (Cons r df)
  show ?case
  proof (cases "coin_id r \<in> set (map coin_id t)")
    case True
    from execute_insert_dup [OF Cons.prems(1,2) True] show ?thesis by simp
  next
    case False
    let ?w' = "w\<lparr>Cryptocurrencies := Some (t @ [r])\<rparr>"
    let ?c' = "c\<lparr>txn := Some ?w'\<rparr>"
    from execute_insert_ok [OF Cons.prems(1,2) False]
    have ex: "execute (INSERT_Cryptocurrencies r) c = Inr ?c'" .
    have 1: "txn ?c' = Some ?w'" by simp
    have 2: "Cryptocurrencies ?w' = Some (t @ [r])" by simp
    have 3: "\<not> distinct (map coin_id ((t @ [r]) @ df))" using Cons.prems(3) by simp
    have 4: "distinct (map coin_id (t @ [r]))" using Cons.prems(4) False by simp
    from Cons.IH [OF 1 2 3 4] ex show ?thesis by simp
  qed
qed

text \<open>The connection after the first three operations of the refresh.\<close>

lemma run_push_head:
  "run [Execute CREATE_Cryptocurrencies, Commit, Execute DELETE_FROM_Cryptocurrencies] (get_connection d) =
     (None, \<lparr>disk = d\<lparr>Cryptocurrencies := Some (rows_of (Cryptocurrencies d))\<rparr>,
             txn = Some (d\<lparr>Cryptocurrencies := Some []\<rparr>)\<rparr>)"
  by (simp add: get_connection_def execute_def commit_def create_if_not_exists_def rows_of_def
      split: option.splits)

lemma push_dataframe_to_table_eq:
  "push_dataframe_to_table df d =
     (if distinct (map coin_id df)
      then (Inr (length df), d\<lparr>Cryptocurrencies := Some df\<rparr>)
      else (Inl IntegrityError, d\<lparr>Cryptocurrencies := Some (rows_of (Cryptocurrencies d))\<rparr>))"
proof -
  let ?c = "\<lparr>disk = d\<lparr>Cryptocurrencies := Some (rows_of (Cryptocurrencies d))\<rparr>,
             txn = Some (d\<lparr>Cryptocurrencies := Some []\<rparr>)\<rparr>"
  let ?ins = "map (\<lambda>r. Execute (INSERT_Cryptocurrencies r)) df"
  have ops: "push_dataframe_ops df =
      [Execute CREATE_Cryptocurrencies, Commit, Execute DELETE_FROM_Cryptocurrencies] @ ?ins @ [Commit, Commit]"
    by (simp add: push_dataframe_ops_def)
  have t: "txn ?c = Some (d\<lparr>Cryptocurrencies := Some []\<rparr>)" by simp
  have tb: "Cryptocurrencies (d\<lparr>Cryptocurrencies := Some []\<rparr>) = Some []" by simp
  show ?thesis
  proof (cases "distinct (map coin_id df)")
    case True
    then have "distinct (map coin_id ([] @ df))" by simp
    from run_insert_coins_ok [OF t tb this]
    have "run ?ins ?c = (None, ?c\<lparr>txn := Some (d\<lparr>Cryptocurrencies := Some df\<rparr>)\<rparr>)" by simp
    then have "run (push_dataframe_ops df) (get_connection d) =
        (None, \<lparr>disk = d\<lparr>Cryptocurrencies := Some df\<rparr>, txn = None\<rparr>)"
      unfolding ops run_append run_push_head by (simp add: commit_def)
    with True show ?thesis
      unfolding push_dataframe_to_table_def own_conn_def push_dataframe_to_table_on_def
      by (simp add: close_def)
  next
    case False
    then have "\<not> distinct (map coin_id ([] @ df))" by simp
    from run_insert_coins_dup [OF t tb this]
    have f: "fst (run ?ins ?c) = Some IntegrityError" by simp
    have nc: "no_commit ?ins" by (induction df) simp_all
    from run_keeps_disk [OF t nc] have dk: "disk (snd (run ?ins ?c)) = disk ?c" by simp
    obtain c' where r: "run ?ins ?c = (Some IntegrityError, c')" using f by (cases "run ?ins ?c") auto
    with dk have dc: "disk c' = disk ?c" by simp
    from r have "run (push_dataframe_ops df) (get_connection d) = (Some IntegrityError, c')"
      unfolding ops run_append run_push_head by simp
    with False dc show ?thesis
      unfolding push_dataframe_to_table_def own_conn_def push_dataframe_to_table_on_def
      by (simp add: rollback_def close_def)
  qed
qed

lemma run_replace_oil:
  "oil_price (view c) = Some t \<Longrightarrow>
   run (map (\<lambda>r. Execute (REPLACE_oil_price r)) rows) c =
     (None, if rows = [] then c
            else c\<lparr>txn := Some ((view c)\<lparr>oil_price := Some (replace_all oil_key rows t)\<rparr>)\<rparr>)"
proof (induction rows arbitrary: c t)
  case Nil show ?case by simp
next
  case (Cons r rs)
  let ?c' = "c\<lparr>txn := Some ((view c)\<lparr>oil_price := Some (replace_into oil_key r t)\<rparr>)\<rparr>"
  have ex: "execute (REPLACE_oil_price r) c = Inr ?c'"
    using Cons.prems by (cases "txn c") (simp_all add: execute_def view_def)
  have v: "oil_price (view ?c') = Some (replace_into oil_key r t)"
    by (simp add: view_def)
  have v2: "view ?c' = (view c)\<lparr>oil_price := Some (replace_into oil_key r t)\<rparr>"
    by (simp add: view_def)
  show ?case
    using Cons.IH [OF v] ex by (simp add: replace_all_Cons replace_all_Nil v2)
qed

lemma insert_oil_prices_eq:
  "insert_oil_prices rows d =
     (Inr (length rows),
      d\<lparr>oil_price := Some (replace_all oil_key rows (rows_of (oil_price d)))\<rparr>)"
proof -
  let ?t = "rows_of (oil_price d)"
  let ?c1 = "\<lparr>disk = d\<lparr>oil_price := Some ?t\<rparr>, txn = None\<rparr>"
  have c: "create_if_not_exists (oil_price d) = Some ?t"
    by (simp add: create_if_not_exists_def rows_of_def split: option.splits)
  have v: "oil_price (view ?c1) = Some ?t" by (simp add: view_def)
  show ?thesis
    unfolding insert_oil_prices_def own_conn_def insert_oil_prices_on_def insert_oil_prices_ops_def
    using run_replace_oil [OF v, of rows]
    by (simp add: run_append get_connection_def execute_def commit_def c returning_def close_def view_def replace_all_Nil)
qed

lemma run_replace_stock:
  "stock_price (view c) = Some t \<Longrightarrow>
   run (map (\<lambda>r. Execute (REPLACE_stock_price r)) rows) c =
     (None, if rows = [] then c
            else c\<lparr>txn := Some ((view c)\<lparr>stock_price := Some (replace_all stock_key rows t)\<rparr>)\<rparr>)"
proof (induction rows arbitrary: c t)
  case Nil show ?case by simp
next
  case (Cons r rs)
  let ?c' = "c\<lparr>txn := Some ((view c)\<lparr>stock_price := Some (replace_into stock_key r t)\<rparr>)\<rparr>"
  have ex: "execute (REPLACE_stock_price r) c = Inr ?c'"
    using Cons.prems by (cases "txn c") (simp_all add: execute_def view_def)
  have v: "stock_price (view ?c') = Some (replace_into stock_key r t)"
    by (simp add: view_def)
  have v2: "view ?c' = (view c)\<lparr>stock_price := Some (replace_into stock_key r t)\<rparr>"
    by (simp add: view_def)
  show ?case
    using Cons.IH [OF v] ex by (simp add: replace_all_Cons replace_all_Nil v2)
qed

lemma insert_stock_prices_eq:
  "insert_stock_prices rows d =
     (Inr (length rows),
      d\<lparr>stock_price := Some (replace_all stock_key rows (rows_of (stock_price d)))\<rparr>)"
proof -
  let ?t = "rows_of (stock_price d)"
  let ?c1 = "\<lparr>disk = d\<lparr>stock_price := Some ?t\<rparr>, txn = None\<rparr>"
  have c: "create_if_not_exists (stock_price d) = Some ?t"
    by (simp add: create_if_not_exists_def rows_of_def split: option.splits)
  have v: "stock_price (view ?c1) = Some ?t" by (simp add: view_def)
  show ?thesis
    unfolding insert_stock_prices_def own_conn_def insert_stock_prices_on_def insert_stock_prices_ops_def
    using run_replace_stock [OF v, of rows]
    by (simp add: run_append get_connection_def execute_def commit_def c returning_def close_def view_def replace_all_Nil)
qed

subsection \<open>Duplicate keys inside one batch\<close>

text \<open>
  C9. An insert into a historical table (\<^verbatim>\<open>insert_crypto_prices\<close>, \<^verbatim>\<open>insert_oil_prices\<close>,
  \<^verbatim>\<open>insert_stock_prices\<close>) returns the length of the row list it was given, and for every
  key of the list the table afterwards holds exactly one row, the last row of the list
  with that key: the rows are applied one after the other in list order.
\<close>
theorem historical_insert_last_row_wins:
  "fst (insert_crypto_prices cs d) = Inr (length cs) \<and>
   (\<forall>r\<in>set cs. lookup crypto_key (crypto_key r) (rows_of (Crypto_prices (snd (insert_crypto_prices cs d))))
                 = [last (lookup crypto_key (crypto_key r) cs)]) \<and>
   fst (insert_oil_prices os d) = Inr (length os) \<and>
   (\<forall>r\<in>set os. lookup oil_key (oil_key r) (rows_of (oil_price (snd (insert_oil_prices os d))))
                 = [last (lookup oil_key (oil_key r) os)]) \<and>
   fst (insert_stock_prices ss d) = Inr (length ss) \<and>
   (\<forall>r\<in>set ss. lookup stock_key (stock_key r) (rows_of (stock_price (snd (insert_stock_prices ss d))))
                 = [last (lookup stock_key (stock_key r) ss)])"
  by (simp add: insert_crypto_prices_eq insert_oil_prices_eq insert_stock_prices_eq rows_of_def
      lookup_replace_all)

theorem historical_insert_last_row_wins_witness:
  "fst (insert_crypto_prices [(''bitcoin'', ''2024-01-01'', 42000), (''bitcoin'', ''2024-01-01'', 43000)] empty_db) = Inr 2 \<and>
   lookup crypto_key (''bitcoin'', ''2024-01-01'')
     (rows_of (Crypto_prices (snd (insert_crypto_prices
        [(''bitcoin'', ''2024-01-01'', 42000), (''bitcoin'', ''2024-01-01'', 43000)] empty_db))))
     = [(''bitcoin'', ''2024-01-01'', 43000)] \<and>
   fst (insert_oil_prices [(''2024-01-02'', 70), (''2024-01-03'', 71), (''2024-01-02'', 72)] empty_db) = Inr 3 \<and>
   lookup oil_key ''2024-01-02''
     (rows_of (oil_price (snd (insert_oil_prices
        [(''2024-01-02'', 70), (''2024-01-03'', 71), (''2024-01-02'', 72)] empty_db))))
     = [(''2024-01-02'', 72)] \<and>
   fst (insert_stock_prices [(''2024-01-02'', 1, 2, 1, 2, 10, ''GSPC''), (''2024-01-02'', 3, 4, 3, 4, 20, ''GSPC'')] empty_db) = Inr 2 \<and>
   lookup stock_key (''GSPC'', ''2024-01-02'')
     (rows_of (stock_price (snd (insert_stock_prices
        [(''2024-01-02'', 1, 2, 1, 2, 10, ''GSPC''), (''2024-01-02'', 3, 4, 3, 4, 20, ''GSPC'')] empty_db))))
     = [(''2024-01-02'', 3, 4, 3, 4, 20, ''GSPC'')]"
  using historical_insert_last_row_wins
    [of "[(''bitcoin'', ''2024-01-01'', 42000), (''bitcoin'', ''2024-01-01'', 43000)]" empty_db
        "[(''2024-01-02'', 70), (''2024-01-03'', 71), (''2024-01-02'', 72)]"
        "[(''2024-01-02'', 1, 2, 1, 2, 10, ''GSPC''), (''2024-01-02'', 3, 4, 3, 4, 20, ''GSPC'')]"]
  by (simp add: lookup_def)

subsection \<open>Idempotence\<close>

text \<open>
  C2. Ingesting a batch a second time changes nothing: after the first call, the same
  call returns the same count and leaves the database file as it is, for the three
  historical tables and for the snapshot table.
\<close>
theorem ingest_twice_is_ingest_once:
  "insert_crypto_prices cs (snd (insert_crypto_prices cs d)) = insert_crypto_prices cs d \<and>
   insert_oil_prices os (snd (insert_oil_prices os d)) = insert_oil_prices os d \<and>
   insert_stock_prices ss (snd (insert_stock_prices ss d)) = insert_stock_prices ss d \<and>
   push_dataframe_to_table df (snd (push_dataframe_to_table df d)) = push_dataframe_to_table df d"
  by (simp add: insert_crypto_prices_eq insert_oil_prices_eq insert_stock_prices_eq rows_of_def
      replace_all_idem push_dataframe_to_table_eq)

subsection \<open>Upsert and full replace\<close>

text \<open>
  C1, with the snapshot table restricted to batches it accepts. For each historical table
  whose stored rows have distinct keys, and every batch, the table after the insert call
  is the upsert of the batch: one row per key, the batch's last row for each key of the
  batch, and the rows with other keys untouched. For \<^verbatim>\<open>Cryptocurrencies\<close>, a batch with
  pairwise distinct ids replaces the whole table: afterwards the table is the batch, so
  every row with another id is gone. A batch that repeats an id is refused with an
  integrity error and the rows of the table stay as they were.
\<close>
theorem insert_upserts_snapshot_replaces:
  "(unique_key crypto_key (rows_of (Crypto_prices d)) \<longrightarrow>
      upserted crypto_key cs (rows_of (Crypto_prices d))
        (rows_of (Crypto_prices (snd (insert_crypto_prices cs d))))) \<and>
   (unique_key oil_key (rows_of (oil_price d)) \<longrightarrow>
      upserted oil_key os (rows_of (oil_price d))
        (rows_of (oil_price (snd (insert_oil_prices os d))))) \<and>
   (unique_key stock_key (rows_of (stock_price d)) \<longrightarrow>
      upserted stock_key ss (rows_of (stock_price d))
        (rows_of (stock_price (snd (insert_stock_prices ss d))))) \<and>
   (distinct (map coin_id df) \<longrightarrow>
      fst (push_dataframe_to_table df d) = Inr (length df) \<and>
      rows_of (Cryptocurrencies (snd (push_dataframe_to_table df d))) = df) \<and>
   (\<not> distinct (map coin_id df) \<longrightarrow>
      fst (push_dataframe_to_table df d) = Inl IntegrityError \<and>
      rows_of (Cryptocurrencies (snd (push_dataframe_to_table df d))) = rows_of (Cryptocurrencies d))"
  by (simp add: insert_crypto_prices_eq insert_oil_prices_eq insert_stock_prices_eq
      push_dataframe_to_table_eq upserted_replace_all rows_of_def)

text \<open>
  The claim as stated, for every batch, fails on the snapshot table: a frame that holds
  the id \<^verbatim>\<open>bitcoin\<close> twice violates the primary key on the second \<^verbatim>\<open>INSERT\<close>; the call
  raises, nothing is committed, and the row \<^verbatim>\<open>tether\<close>, whose key is not in the batch, is
  still there.
\<close>

theorem snapshot_duplicate_id_counterexample:
  "fst (push_dataframe_to_table
          [plain_coin ''bitcoin'' ''btc'' ''Bitcoin'', plain_coin ''bitcoin'' ''btc'' ''Bitcoin''] stored_db)
     = Inl IntegrityError \<and>
   rows_of (Cryptocurrencies (snd (push_dataframe_to_table
          [plain_coin ''bitcoin'' ''btc'' ''Bitcoin'', plain_coin ''bitcoin'' ''btc'' ''Bitcoin''] stored_db)))
     = [plain_coin ''tether'' ''usdt'' ''Tether''] \<and>
   coin_id (plain_coin ''tether'' ''usdt'' ''Tether'')
     \<notin> set (map coin_id [plain_coin ''bitcoin'' ''btc'' ''Bitcoin'', plain_coin ''bitcoin'' ''btc'' ''Bitcoin''])"
  by (simp add: push_dataframe_to_table_eq stored_db_def plain_coin_def rows_of_def)

text \<open>An instance: the overwrite of the stored bitcoin price of 2024-01-01 by 43000.\<close>

theorem insert_upserts_snapshot_replaces_witness:
  "unique_key crypto_key (rows_of (Crypto_prices stored_db)) \<and>
   rows_of (Crypto_prices (snd (insert_crypto_prices [(''bitcoin'', ''2024-01-01'', 43000)] stored_db)))
     = [(''ethereum'', ''2024-01-01'', 2300), (''bitcoin'', ''2024-01-01'', 43000)] \<and>
   upserted crypto_key [(''bitcoin'', ''2024-01-01'', 43000)]
     [(''bitcoin'', ''2024-01-01'', 42000), (''ethereum'', ''2024-01-01'', 2300)]
     [(''ethereum'', ''2024-01-01'', 2300), (''bitcoin'', ''2024-01-01'', 43000)] \<and>
   unique_key oil_key (rows_of (oil_price stored_db)) \<and>
   upserted oil_key [(''2024-01-03'', 71)] [(''2024-01-02'', 70)]
     (rows_of (oil_price (snd (insert_oil_prices [(''2024-01-03'', 71)] stored_db)))) \<and>
   unique_key stock_key (rows_of (stock_price stored_db)) \<and>
   upserted stock_key [(''2024-01-02'', 3, 4, 3, 4, 20, ''GSPC'')] [(''2024-01-02'', 1, 2, 1, 2, 10, ''GSPC'')]
     (rows_of (stock_price (snd (insert_stock_prices [(''2024-01-02'', 3, 4, 3, 4, 20, ''GSPC'')] stored_db)))) \<and>
   distinct (map coin_id [plain_coin ''bitcoin'' ''btc'' ''Bitcoin'']) \<and>
   rows_of (Cryptocurrencies (snd (push_dataframe_to_table [plain_coin ''bitcoin'' ''btc'' ''Bitcoin''] stored_db)))
     = [plain_coin ''bitcoin'' ''btc'' ''Bitcoin''] \<and>
   \<not> distinct (map coin_id [plain_coin ''bitcoin'' ''btc'' ''Bitcoin'', plain_coin ''bitcoin'' ''btc'' ''Bitcoin'']) \<and>
   fst (push_dataframe_to_table [plain_coin ''bitcoin'' ''btc'' ''Bitcoin'', plain_coin ''bitcoin'' ''btc'' ''Bitcoin''] stored_db)
     = Inl IntegrityError"
proof -
  have u1: "unique_key crypto_key (rows_of (Crypto_prices stored_db))"
    and u2: "unique_key oil_key (rows_of (oil_price stored_db))"
    and u3: "unique_key stock_key (rows_of (stock_price stored_db))"
    by (simp_all add: unique_key_def stored_db_def rows_of_def)
  have d1: "distinct (map coin_id [plain_coin ''bitcoin'' ''btc'' ''Bitcoin''])" by simp
  have d2: "\<not> distinct (map coin_id [plain_coin ''bitcoin'' ''btc'' ''Bitcoin'', plain_coin ''bitcoin'' ''btc'' ''Bitcoin''])"
    by simp
  have r: "rows_of (Crypto_prices (snd (insert_crypto_prices [(''bitcoin'', ''2024-01-01'', 43000)] stored_db)))
     = [(''ethereum'', ''2024-01-01'', 2300), (''bitcoin'', ''2024-01-01'', 43000)]"
    by (simp add: insert_crypto_prices_eq stored_db_def rows_of_def replace_all_def replace_into_def)
  have s: "rows_of (Crypto_prices stored_db) = [(''bitcoin'', ''2024-01-01'', 42000), (''ethereum'', ''2024-01-01'', 2300)]"
    "rows_of (oil_price stored_db) = [(''2024-01-02'', 70)]"
    "rows_of (stock_price stored_db) = [(''2024-01-02'', 1, 2, 1, 2, 10, ''GSPC'')]"
    by (simp_all add: stored_db_def rows_of_def)
  note a = insert_upserts_snapshot_replaces
    [of stored_db "[(''bitcoin'', ''2024-01-01'', 43000)]" "[(''2024-01-03'', 71)]"
        "[(''2024-01-02'', 3, 4, 3, 4, 20, ''GSPC'')]" "[plain_coin ''bitcoin'' ''btc'' ''Bitcoin'']"]
  note b = insert_upserts_snapshot_replaces
    [of stored_db "[]" "[]" "[]"
        "[plain_coin ''bitcoin'' ''btc'' ''Bitcoin'', plain_coin ''bitcoin'' ''btc'' ''Bitcoin'']"]
  from a u1 r s have 1: "upserted crypto_key [(''bitcoin'', ''2024-01-01'', 43000)]
     [(''bitcoin'', ''2024-01-01'', 42000), (''ethereum'', ''2024-01-01'', 2300)]
     [(''ethereum'', ''2024-01-01'', 2300), (''bitcoin'', ''2024-01-01'', 43000)]" by simp
  from a u2 s have 2: "upserted oil_key [(''2024-01-03'', 71)] [(''2024-01-02'', 70)]
     (rows_of (oil_price (snd (insert_oil_prices [(''2024-01-03'', 71)] stored_db))))" by simp
  from a u3 s have 3: "upserted stock_key [(''2024-01-02'', 3, 4, 3, 4, 20, ''GSPC'')] [(''2024-01-02'', 1, 2, 1, 2, 10, ''GSPC'')]
     (rows_of (stock_price (snd (insert_stock_prices [(''2024-01-02'', 3, 4, 3, 4, 20, ''GSPC'')] stored_db))))" by simp
  from a d1 have 4: "rows_of (Cryptocurrencies (snd (push_dataframe_to_table [plain_coin ''bitcoin'' ''btc'' ''Bitcoin''] stored_db)))
     = [plain_coin ''bitcoin'' ''btc'' ''Bitcoin'']" by blast
  from b d2 have 5: "fst (push_dataframe_to_table [plain_coin ''bitcoin'' ''btc'' ''Bitcoin'', plain_coin ''bitcoin'' ''btc'' ''Bitcoin''] stored_db)
     = Inl IntegrityError" by blast
  from u1 u2 u3 d1 d2 r 1 2 3 4 5 show ?thesis by blast
qed

subsection \<open>The snapshot refresh is one transaction\<close>

lemma no_commit_inserts: "no_commit (map (\<lambda>r. Execute (INSERT_Cryptocurrencies r)) df)"
  by (induction df) simp_all

lemma interrupted_early:
  assumes "k \<le> 3"
  shows "rows_of (Cryptocurrencies (interrupted_refresh k df d)) = rows_of (Cryptocurrencies d)"
proof -
  from assms consider "k = 0" | "k = 1" | "k = 2" | "k = 3" by linarith
  then show ?thesis
    by cases
      (simp_all add: interrupted_refresh_def push_dataframe_ops_def get_connection_def execute_def
        commit_def create_if_not_exists_def rows_of_def numeral_2_eq_2 numeral_3_eq_3
        split: option.splits)
qed

lemma interrupted_inserting:
  assumes "3 < k" "k \<le> 3 + length df"
  shows "rows_of (Cryptocurrencies (interrupted_refresh k df d)) = rows_of (Cryptocurrencies d)"
proof -
  let ?c = "\<lparr>disk = d\<lparr>Cryptocurrencies := Some (rows_of (Cryptocurrencies d))\<rparr>,
             txn = Some (d\<lparr>Cryptocurrencies := Some []\<rparr>)\<rparr>"
  from assms have "\<exists>m. k = Suc (Suc (Suc m)) \<and> m \<le> length df"
    by (intro exI [of _ "k - 3"]) linarith
  then obtain m where k: "k = Suc (Suc (Suc m))" and m: "m \<le> length df" by blast
  let ?ins = "map (\<lambda>r. Execute (INSERT_Cryptocurrencies r)) (take m df)"
  have "take k (push_dataframe_ops df) =
      [Execute CREATE_Cryptocurrencies, Commit, Execute DELETE_FROM_Cryptocurrencies] @ ?ins"
    using m by (simp add: k push_dataframe_ops_def take_map)
  then have "run (take k (push_dataframe_ops df)) (get_connection d) = run ?ins ?c"
    by (simp only: run_append run_push_head) simp
  moreover have "disk (snd (run ?ins ?c)) = disk ?c"
    using run_keeps_disk [of ?c _ ?ins] no_commit_inserts by simp
  ultimately show ?thesis
    by (simp add: interrupted_refresh_def rows_of_def)
qed

lemma interrupted_late:
  assumes "3 + length df < k"
  shows "rows_of (Cryptocurrencies (interrupted_refresh k df d)) =
           (if distinct (map coin_id df) then df else rows_of (Cryptocurrencies d))"
proof -
  let ?c = "\<lparr>disk = d\<lparr>Cryptocurrencies := Some (rows_of (Cryptocurrencies d))\<rparr>,
             txn = Some (d\<lparr>Cryptocurrencies := Some []\<rparr>)\<rparr>"
  let ?ins = "map (\<lambda>r. Execute (INSERT_Cryptocurrencies r)) df"
  have t: "txn ?c = Some (d\<lparr>Cryptocurrencies := Some []\<rparr>)" by simp
  have tb: "Cryptocurrencies (d\<lparr>Cryptocurrencies := Some []\<rparr>) = Some []" by simp
  from assms have "\<exists>j. k = Suc (Suc (Suc (length df + Suc j)))"
    by (intro exI [of _ "k - (4 + length df)"]) linarith
  then obtain j where k: "k = Suc (Suc (Suc (length df + Suc j)))" ..
  have tk: "take k (push_dataframe_ops df) =
      [Execute CREATE_Cryptocurrencies, Commit, Execute DELETE_FROM_Cryptocurrencies] @ ?ins
        @ (Commit # take j [Commit])"
    by (simp add: k push_dataframe_ops_def)
  have rn: "run (take k (push_dataframe_ops df)) (get_connection d) =
      (case run ?ins ?c of (Some e, c') \<Rightarrow> (Some e, c') | (None, c') \<Rightarrow> run (Commit # take j [Commit]) c')"
    unfolding tk run_append run_push_head by simp
  show ?thesis
  proof (cases "distinct (map coin_id df)")
    case True
    then have "distinct (map coin_id ([] @ df))" by simp
    from run_insert_coins_ok [OF t tb this]
    have "run ?ins ?c = (None, ?c\<lparr>txn := Some (d\<lparr>Cryptocurrencies := Some df\<rparr>)\<rparr>)" by simp
    with rn have "run (take k (push_dataframe_ops df)) (get_connection d) =
        (None, \<lparr>disk = d\<lparr>Cryptocurrencies := Some df\<rparr>, txn = None\<rparr>)"
      by (cases j) (simp_all add: commit_def)
    with True show ?thesis by (simp add: interrupted_refresh_def rows_of_def)
  next
    case False
    then have "\<not> distinct (map coin_id ([] @ df))" by simp
    from run_insert_coins_dup [OF t tb this]
    have f: "fst (run ?ins ?c) = Some IntegrityError" by simp
    from run_keeps_disk [OF t no_commit_inserts] have dk: "disk (snd (run ?ins ?c)) = disk ?c" by simp
    obtain c' where r: "run ?ins ?c = (Some IntegrityError, c')" using f by (cases "run ?ins ?c") auto
    with dk have dc: "disk c' = disk ?c" by simp
    from r rn have "run (take k (push_dataframe_ops df)) (get_connection d) = (Some IntegrityError, c')"
      by simp
    with False dc show ?thesis by (simp add: interrupted_refresh_def rows_of_def)
  qed
qed

text \<open>
  C6. The refresh deletes and inserts inside one transaction: the first commit after
  \<^verbatim>\<open>DELETE FROM Cryptocurrencies\<close> is the one that follows the last insert. Whenever the
  refresh stops, readers see the complete old snapshot, unless the commit was reached
  (operation \<open>4 + length df\<close>) and no insert failed; then they see exactly the new frame.
  They never see a mix.
\<close>

theorem refresh_interrupted_is_old_or_new:
  "rows_of (Cryptocurrencies (interrupted_refresh k df d)) =
     (if 3 + length df < k \<and> distinct (map coin_id df) then df else rows_of (Cryptocurrencies d))"
proof -
  consider "k \<le> 3" | "3 < k" "k \<le> 3 + length df" | "3 + length df < k" by linarith
  then show ?thesis
  proof cases
    case 1
    then show ?thesis by (simp add: interrupted_early)
  next
    case 2
    then show ?thesis by (simp add: interrupted_inserting)
  next
    case 3
    then show ?thesis by (simp add: interrupted_late)
  qed
qed

text \<open>
  An instance with a frame of two coins over a stored snapshot of one: stopped after the
  first insert or after the second, the old row is what is read; after the commit, the
  two new rows.
\<close>

theorem refresh_interrupted_is_old_or_new_witness:
  "rows_of (Cryptocurrencies (interrupted_refresh 4
      [plain_coin ''bitcoin'' ''btc'' ''Bitcoin'', plain_coin ''ethereum'' ''eth'' ''Ethereum''] stored_db))
     = [plain_coin ''tether'' ''usdt'' ''Tether''] \<and>
   rows_of (Cryptocurrencies (interrupted_refresh 5
      [plain_coin ''bitcoin'' ''btc'' ''Bitcoin'', plain_coin ''ethereum'' ''eth'' ''Ethereum''] stored_db))
     = [plain_coin ''tether'' ''usdt'' ''Tether''] \<and>
   rows_of (Cryptocurrencies (interrupted_refresh 6
      [plain_coin ''bitcoin'' ''btc'' ''Bitcoin'', plain_coin ''ethereum'' ''eth'' ''Ethereum''] stored_db))
     = [plain_coin ''bitcoin'' ''btc'' ''Bitcoin'', plain_coin ''ethereum'' ''eth'' ''Ethereum'']"
  using refresh_interrupted_is_old_or_new
      [of 4 "[plain_coin ''bitcoin'' ''btc'' ''Bitcoin'', plain_coin ''ethereum'' ''eth'' ''Ethereum'']" stored_db]
    refresh_interrupted_is_old_or_new
      [of 5 "[plain_coin ''bitcoin'' ''btc'' ''Bitcoin'', plain_coin ''ethereum'' ''eth'' ''Ethereum'']" stored_db]
    refresh_interrupted_is_old_or_new
      [of 6 "[plain_coin ''bitcoin'' ''btc'' ''Bitcoin'', plain_coin ''ethereum'' ''eth'' ''Ethereum'']" stored_db]
  by (simp add: stored_db_def rows_of_def plain_coin_def)

section \<open>Properties of the crypto normalizer\<close>

lemma process_loop_acc:
  "process_loop round_price raw rows =
     (case process_loop round_price raw [] of Inl e \<Rightarrow> Inl e | Inr ys \<Rightarrow> Inr (rows @ ys))"
proof (induction raw arbitrary: rows)
  case Nil
  show ?case by simp
next
  case (Cons x raw)
  obtain cid api where x: "x = (cid, api)" by (cases x)
  show ?case
  proof (cases "group_by_date round_price (prices_or_empty api) []")
    case (Inl e)
    with x show ?thesis by simp
  next
    case (Inr bd)
    let ?new = "map (\<lambda>(date, price_usd). (cid, date, price_usd)) (sort_key fst bd)"
    have "process_loop round_price (x # raw) rows = process_loop round_price raw (rows @ ?new)"
      using x Inr by simp
    also have "\<dots> = (case process_loop round_price raw [] of Inl e \<Rightarrow> Inl e | Inr ys \<Rightarrow> Inr ((rows @ ?new) @ ys))"
      by (rule Cons.IH)
    also have "\<dots> = (case process_loop round_price raw ?new of Inl e \<Rightarrow> Inl e | Inr ys \<Rightarrow> Inr (rows @ ys))"
      by (subst (2) Cons.IH) (simp split: sum.splits)
    also have "\<dots> = (case process_loop round_price (x # raw) [] of Inl e \<Rightarrow> Inl e | Inr ys \<Rightarrow> Inr (rows @ ys))"
      using x Inr by simp
    finally show ?thesis .
  qed
qed

lemma process_prices_to_rows_Cons:
  "process_prices_to_rows round_price ((cid, api) # raw) =
     (case group_by_date round_price (prices_or_empty api) [] of
        Inl e \<Rightarrow> Inl e
      | Inr bd \<Rightarrow>
          (case process_prices_to_rows round_price raw of
             Inl e \<Rightarrow> Inl e
           | Inr ys \<Rightarrow> Inr (map (\<lambda>(date, price_usd). (cid, date, price_usd)) (sort_key fst bd) @ ys)))"
proof (cases "group_by_date round_price (prices_or_empty api) []")
  case (Inl e)
  then show ?thesis by (simp add: process_prices_to_rows_def)
next
  case (Inr bd)
  let ?new = "map (\<lambda>(date, price_usd). (cid, date, price_usd)) (sort_key fst bd)"
  have "process_prices_to_rows round_price ((cid, api) # raw) = process_loop round_price raw ?new"
    using Inr by (simp add: process_prices_to_rows_def)
  also have "\<dots> = (case process_loop round_price raw [] of Inl e \<Rightarrow> Inl e | Inr ys \<Rightarrow> Inr (?new @ ys))"
    by (rule process_loop_acc)
  finally show ?thesis using Inr by (simp add: process_prices_to_rows_def)
qed

lemma process_prices_to_rows_append:
  "process_prices_to_rows round_price (xs @ ys) =
     (case process_prices_to_rows round_price xs of
        Inl e \<Rightarrow> Inl e
      | Inr a \<Rightarrow>
          (case process_prices_to_rows round_price ys of Inl e \<Rightarrow> Inl e | Inr b \<Rightarrow> Inr (a @ b)))"
proof (induction xs)
  case Nil
  show ?case by (simp add: process_prices_to_rows_def split: sum.splits)
next
  case (Cons x xs)
  obtain cid api where x: "x = (cid, api)" by (cases x)
  show ?case
    unfolding x append_Cons process_prices_to_rows_Cons Cons.IH
    by (simp split: sum.splits)
qed

lemma dict_set_twice: "dict_set k v (dict_set k v' m) = dict_set k v m"
  by (induction m) auto

lemma map_of_dict_set: "map_of (dict_set k v m) = (map_of m)(k \<mapsto> v)"
  by (induction m) (auto simp: fun_eq_iff)

lemma keys_dict_set: "fst ` set (dict_set k v m) = insert k (fst ` set m)"
proof (induction m)
  case Nil
  show ?case by simp
next
  case (Cons a m)
  obtain k' v' where a: "a = (k', v')" by (cases a)
  show ?case
  proof (cases "k' = k")
    case True
    with a show ?thesis by auto
  next
    case False
    with a Cons.IH show ?thesis by (simp add: insert_commute)
  qed
qed

lemma distinct_dict_set: "distinct (map fst m) \<Longrightarrow> distinct (map fst (dict_set k v m))"
  by (induction m) (auto simp: keys_dict_set)

lemma group_by_date_same_day:
  assumes "samples \<noteq> []" "\<forall>s\<in>set samples. utc_day (fst s) = Inr day"
  shows "group_by_date round_price samples m = Inr (dict_set day (round_price (snd (last samples))) m)"
  using assms
proof (induction samples arbitrary: m)
  case Nil
  then show ?case by simp
next
  case (Cons s samples)
  obtain t p where s: "s = (t, p)" by (cases s)
  from Cons.prems s have d: "utc_day t = Inr day" by simp
  show ?case
  proof (cases "samples = []")
    case True
    with s d show ?thesis by simp
  next
    case False
    from Cons.prems have "\<forall>s\<in>set samples. utc_day (fst s) = Inr day" by simp
    from Cons.IH [OF False this] s d False show ?thesis
      by (simp add: dict_set_twice)
  qed
qed

lemma last_is_latest:
  fixes samples :: "sample list"
  shows "sorted_wrt (<) (map fst samples) \<Longrightarrow> s \<in> set samples \<Longrightarrow> fst s \<le> fst (last samples)"
proof (induction samples)
  case Nil
  then show ?case by simp
next
  case (Cons a samples)
  show ?case
  proof (cases "samples = []")
    case True
    with Cons.prems show ?thesis by simp
  next
    case False
    then have l: "last samples \<in> set samples" by simp
    show ?thesis
    proof (cases "s = a")
      case True
      with Cons.prems l False show ?thesis by (auto simp: less_imp_le)
    next
      case False
      with Cons show ?thesis by (cases "samples = []") auto
    qed
  qed
qed

lemma group_by_date_lookup:
  "group_by_date round_price ps m = Inr bd \<Longrightarrow>
   map_of bd d =
     (case filter (\<lambda>s. utc_day (fst s) = Inr d) ps of
        [] \<Rightarrow> map_of m d
      | x # xs \<Rightarrow> Some (round_price (snd (last (x # xs)))))"
proof (induction ps arbitrary: m)
  case Nil
  then show ?case by simp
next
  case (Cons s ps)
  obtain t p where s: "s = (t, p)" by (cases s)
  from Cons.prems s obtain day where day: "utc_day t = Inr day"
    and rest: "group_by_date round_price ps (dict_set day (round_price p) m) = Inr bd"
    by (auto split: sum.splits)
  note ih = Cons.IH [OF rest]
  show ?case
  proof (cases "filter (\<lambda>s. utc_day (fst s) = Inr d) ps")
    case Nil
    with ih s day show ?thesis by (auto simp: map_of_dict_set)
  next
    case (Cons y ys)
    with ih s day show ?thesis by auto
  qed
qed

lemma group_by_date_distinct:
  "group_by_date round_price ps m = Inr bd \<Longrightarrow> distinct (map fst m) \<Longrightarrow> distinct (map fst bd)"
proof (induction ps arbitrary: m)
  case Nil
  then show ?case by simp
next
  case (Cons s ps)
  obtain t p where s: "s = (t, p)" by (cases s)
  from Cons.prems s obtain day where
    rest: "group_by_date round_price ps (dict_set day (round_price p) m) = Inr bd"
    by (auto split: sum.splits)
  from Cons.IH [OF rest] Cons.prems(2) show ?case by (simp add: distinct_dict_set)
qed

lemma sort_key_fst_strict:
  "distinct (map fst bd) \<Longrightarrow> sorted_wrt (<) (map fst (sort_key fst bd))"
proof -
  assume d: "distinct (map fst bd)"
  have "sorted (map fst (sort_key fst bd))" by (rule sorted_sort_key)
  moreover have "distinct (map fst (sort_key fst bd))"
    using d by (metis distinct_map distinct_sort set_sort)
  ultimately show ?thesis by (simp add: strict_sorted_iff)
qed

lemma one_coin_rows:
  assumes "process_prices_to_rows round_price [(coin, Value ps)] = Inr rows"
  shows "sorted_wrt (<) (map (fst \<circ> snd) rows) \<and>
         (\<forall>row\<in>set rows. fst row = coin \<and>
            snd (snd row) = round_price (snd (last (filter (\<lambda>s. utc_day (fst s) = Inr (fst (snd row))) ps))))"
proof -
  from assms obtain bd where bd: "group_by_date round_price ps [] = Inr bd"
    and rows: "rows = map (\<lambda>(date, price_usd). (coin, date, price_usd)) (sort_key fst bd)"
    by (auto simp: process_prices_to_rows_def split: sum.splits)
  have dist: "distinct (map fst bd)" using group_by_date_distinct [OF bd] by simp
  have m: "map (fst \<circ> snd) rows = map fst (sort_key fst bd)"
    by (simp add: rows comp_def case_prod_unfold)
  have srt: "sorted_wrt (<) (map (fst \<circ> snd) rows)"
    unfolding m using dist by (rule sort_key_fst_strict)
  have val: "fst row = coin \<and>
            snd (snd row) = round_price (snd (last (filter (\<lambda>s. utc_day (fst s) = Inr (fst (snd row))) ps)))"
    if "row \<in> set rows" for row
  proof -
    from that rows obtain d p where dp: "(d, p) \<in> set bd" and row: "row = (coin, d, p)"
      by auto
    from dp dist have "map_of bd d = Some p" by simp
    with group_by_date_lookup [OF bd, of d]
    have "p = round_price (snd (last (filter (\<lambda>s. utc_day (fst s) = Inr d) ps)))"
      by (cases "filter (\<lambda>s. utc_day (fst s) = Inr d) ps") simp_all
    with row show ?thesis by simp
  qed
  from srt val show ?thesis by blast
qed

lemma same_day_rows:
  assumes "samples \<noteq> []" "\<forall>s\<in>set samples. utc_day (fst s) = Inr day"
  shows "process_prices_to_rows round_price [(coin, Value samples)] = Inr [(coin, day, round_price (snd (last samples)))]"
  using group_by_date_same_day [OF assms, of round_price "[]"]
  by (simp add: process_prices_to_rows_def)

subsection \<open>Rounding to six decimals\<close>

lemma round_half_even_near: "\<bar>of_int (round_half_even y) - y\<bar> \<le> 1 / 2"
proof -
  let ?f = "\<lfloor>y\<rfloor>"
  let ?r = "y - of_int ?f"
  have r0: "0 \<le> ?r" and r1: "?r < 1" by linarith+
  consider "?r < 1 / 2" | "1 / 2 < ?r" | "?r = 1 / 2" by linarith
  then show ?thesis
  proof cases
    case 1
    then have "round_half_even y = ?f" by (simp add: round_half_even_def Let_def)
    with 1 r0 show ?thesis by simp
  next
    case 2
    then have "round_half_even y = ?f + 1" by (simp add: round_half_even_def Let_def)
    with 2 r1 show ?thesis by simp
  next
    case 3
    then have "round_half_even y = ?f \<or> round_half_even y = ?f + 1"
      by (simp add: round_half_even_def Let_def)
    with 3 show ?thesis by auto
  qed
qed

lemma decimal_round6_grid: "six_decimals (decimal_round6 x)"
  by (simp add: six_decimals_def decimal_round6_def)

lemma decimal_round6_near: "\<bar>decimal_round6 x - x\<bar> \<le> 1 / 2000000"
proof -
  let ?k = "round_half_even (x * 1000000)"
  have eq: "decimal_round6 x - x = (of_int ?k - x * 1000000) / 1000000"
    by (simp add: decimal_round6_def field_simps)
  have "\<bar>decimal_round6 x - x\<bar> = \<bar>of_int ?k - x * 1000000\<bar> / \<bar>1000000\<bar>"
    unfolding eq by (rule abs_divide)
  also have "\<dots> = \<bar>of_int ?k - x * 1000000\<bar> / 1000000" by simp
  also have "\<dots> \<le> (1 / 2) / 1000000"
    using round_half_even_near [of "x * 1000000"] by (simp add: divide_right_mono)
  finally show ?thesis by simp
qed

lemma round_half_even_tie:
  assumes "\<bar>of_int (round_half_even y) - y\<bar> = 1 / 2"
  shows "even (round_half_even y)"
proof -
  let ?f = "\<lfloor>y\<rfloor>"
  let ?r = "y - of_int ?f"
  have r0: "0 \<le> ?r" and r1: "?r < 1" by linarith+
  have "?r = 1 / 2"
  proof (rule ccontr)
    assume n: "?r \<noteq> 1 / 2"
    then consider "?r < 1 / 2" | "1 / 2 < ?r" by linarith
    then show False
    proof cases
      case 1
      then have "round_half_even y = ?f" by (simp add: round_half_even_def Let_def)
      with assms 1 r0 show False by simp
    next
      case 2
      then have "round_half_even y = ?f + 1" by (simp add: round_half_even_def Let_def)
      with assms 2 r1 show False by simp
    qed
  qed
  then show ?thesis by (simp add: round_half_even_def Let_def)
qed

lemma decimal_round6_tie:
  assumes "\<bar>decimal_round6 x - x\<bar> = 1 / 2000000"
  shows "even \<lfloor>decimal_round6 x * 1000000\<rfloor>"
proof -
  let ?k = "round_half_even (x * 1000000)"
  have eq: "decimal_round6 x - x = (of_int ?k - x * 1000000) / 1000000"
    by (simp add: decimal_round6_def field_simps)
  have "\<bar>decimal_round6 x - x\<bar> = \<bar>of_int ?k - x * 1000000\<bar> / \<bar>1000000\<bar>"
    unfolding eq by (rule abs_divide)
  with assms have "\<bar>of_int ?k - x * 1000000\<bar> = 1 / 2" by simp
  then have "even ?k" by (rule round_half_even_tie)
  moreover have "\<lfloor>decimal_round6 x * 1000000\<rfloor> = ?k" by (simp add: decimal_round6_def)
  ultimately show ?thesis by simp
qed

subsection \<open>Collapse of same-day samples\<close>

text \<open>
  C4. For a coin whose samples \<open>(t1, p1), (t2, p2), \<dots>\<close> with \<open>t1 < t2 < \<dots>\<close> all fall on one UTC
  calendar day, the normalizer emits, between the rows of the coins before and after it
  in the payload, exactly one row: that day with the price of the last sample, which is
  the chronologically last one, rounded to six decimals. The rounded price is a whole
  multiple of one millionth, lies within half a millionth of the sample's price, and on a
  tie is the even multiple. For any payload of one coin, the emitted rows are strictly
  ascending in their date, and each carries the rounded price of the last sample of its
  day.
\<close>

theorem crypto_normalizer_collapse:
  "(samples \<noteq> [] \<and> (\<forall>s\<in>set samples. utc_day (fst s) = Inr day) \<and>
    sorted_wrt (<) (map fst samples) \<and>
    process_prices_to_rows decimal_round6 before = Inr rows_before \<and>
    process_prices_to_rows decimal_round6 after = Inr rows_after
    \<longrightarrow>
      process_prices_to_rows decimal_round6 (before @ [(coin, Value samples)] @ after)
        = Inr (rows_before @ [(coin, day, decimal_round6 (snd (last samples)))] @ rows_after) \<and>
      (\<forall>s\<in>set samples. fst s \<le> fst (last samples)) \<and>
      six_decimals (decimal_round6 (snd (last samples))) \<and>
      \<bar>decimal_round6 (snd (last samples)) - snd (last samples)\<bar> \<le> 1 / 2000000 \<and>
      (\<bar>decimal_round6 (snd (last samples)) - snd (last samples)\<bar> = 1 / 2000000
         \<longrightarrow> even \<lfloor>decimal_round6 (snd (last samples)) * 1000000\<rfloor>)) \<and>
   (process_prices_to_rows decimal_round6 [(coin, Value ps)] = Inr rows
    \<longrightarrow>
      sorted_wrt (<) (map (fst \<circ> snd) rows) \<and>
      (\<forall>row\<in>set rows. fst row = coin \<and>
         snd (snd row) = decimal_round6 (snd (last (filter (\<lambda>s. utc_day (fst s) = Inr (fst (snd row))) ps)))))"
proof (intro conjI impI)
  assume a: "samples \<noteq> [] \<and> (\<forall>s\<in>set samples. utc_day (fst s) = Inr day) \<and>
    sorted_wrt (<) (map fst samples) \<and>
    process_prices_to_rows decimal_round6 before = Inr rows_before \<and>
    process_prices_to_rows decimal_round6 after = Inr rows_after"
  then have one: "process_prices_to_rows decimal_round6 [(coin, Value samples)]
      = Inr [(coin, day, decimal_round6 (snd (last samples)))]"
    by (intro same_day_rows) simp_all
  from a have b: "process_prices_to_rows decimal_round6 before = Inr rows_before"
    and c: "process_prices_to_rows decimal_round6 after = Inr rows_after" by simp_all
  show "process_prices_to_rows decimal_round6 (before @ [(coin, Value samples)] @ after)
        = Inr (rows_before @ [(coin, day, decimal_round6 (snd (last samples)))] @ rows_after)"
    unfolding process_prices_to_rows_append one b c by simp
  from a show "\<forall>s\<in>set samples. fst s \<le> fst (last samples)"
    by (auto intro: last_is_latest)
  show "six_decimals (decimal_round6 (snd (last samples)))" by (rule decimal_round6_grid)
  show "\<bar>decimal_round6 (snd (last samples)) - snd (last samples)\<bar> \<le> 1 / 2000000"
    by (rule decimal_round6_near)
  assume "\<bar>decimal_round6 (snd (last samples)) - snd (last samples)\<bar> = 1 / 2000000"
  then show "even \<lfloor>decimal_round6 (snd (last samples)) * 1000000\<rfloor>" by (rule decimal_round6_tie)
next
  assume "process_prices_to_rows decimal_round6 [(coin, Value ps)] = Inr rows"
  from one_coin_rows [OF this]
  show "sorted_wrt (<) (map (fst \<circ> snd) rows)"
    and "\<forall>row\<in>set rows. fst row = coin \<and>
         snd (snd row) = decimal_round6 (snd (last (filter (\<lambda>s. utc_day (fst s) = Inr (fst (snd row))) ps)))"
    by blast+
qed

text \<open>
  Instances. Samples at 02:00 UTC (price 100.123456789) and 23:00 UTC (price 101.5) of
  2025-01-01 give the one row \<^verbatim>\<open>(bitcoin, 2025-01-01, 101.5)\<close>. With the two prices
  exchanged, the last sample is 100.123456789 and the row carries 100.123457: the
  rounding changes the value. A payload whose samples come from two days gives two rows
  in date order, with the prices 1.2345678 and 2/3 rounded to 1.234568 and 0.666667.
\<close>

theorem crypto_normalizer_collapse_witness:
  "process_prices_to_rows decimal_round6
      ([] @ [(''bitcoin'', Value [(1735696800000, 100123456789 / 1000000000), (1735772400000, 203 / 2)])] @ [])
     = Inr ([] @ [(''bitcoin'', ''2025-01-01'', 203 / 2)] @ []) \<and>
   process_prices_to_rows decimal_round6
      ([] @ [(''bitcoin'', Value [(1735696800000, 203 / 2), (1735772400000, 100123456789 / 1000000000)])] @ [])
     = Inr ([] @ [(''bitcoin'', ''2025-01-01'', 100123457 / 1000000)] @ []) \<and>
   decimal_round6 (100123456789 / 1000000000) = 100123457 / 1000000 \<and>
   decimal_round6 (100123456789 / 1000000000) \<noteq> 100123456789 / 1000000000 \<and>
   six_decimals (100123457 / 1000000) \<and>
   \<not> six_decimals (100123456789 / 1000000000) \<and>
   \<bar>100123457 / 1000000 - 100123456789 / 1000000000 :: rat\<bar> \<le> 1 / 2000000 \<and>
   process_prices_to_rows decimal_round6
      [(''bitcoin'', Value [(1735696800000, 100123456789 / 1000000000), (0, 12345678 / 10000000),
                            (1735772400000, 2 / 3)])]
     = Inr [(''bitcoin'', ''1970-01-01'', 1234568 / 1000000), (''bitcoin'', ''2025-01-01'', 666667 / 1000000)] \<and>
   sorted_wrt (<) (map (fst \<circ> snd)
     [(''bitcoin'', ''1970-01-01'', 1234568 / 1000000 :: rat), (''bitcoin'', ''2025-01-01'', 666667 / 1000000)])"
proof -
  let ?s1 = "[(1735696800000, 100123456789 / 1000000000), (1735772400000, 203 / 2)] :: sample list"
  let ?s2 = "[(1735696800000, 203 / 2), (1735772400000, 100123456789 / 1000000000)] :: sample list"
  let ?ps = "[(1735696800000, 100123456789 / 1000000000), (0, 12345678 / 10000000),
              (1735772400000, 2 / 3)] :: sample list"
  let ?rows = "[(''bitcoin'', ''1970-01-01'', 1234568 / 1000000),
                (''bitcoin'', ''2025-01-01'', 666667 / 1000000)] :: crypto_price_row list"
  have d1: "utc_day 1735696800000 = Inr ''2025-01-01''" by code_simp
  have d2: "utc_day 1735772400000 = Inr ''2025-01-01''" by code_simp
  have e: "process_prices_to_rows decimal_round6 [] = Inr []" by (simp add: process_prices_to_rows_def)
  have h1: "?s1 \<noteq> [] \<and> (\<forall>s\<in>set ?s1. utc_day (fst s) = Inr ''2025-01-01'') \<and>
      sorted_wrt (<) (map fst ?s1) \<and>
      process_prices_to_rows decimal_round6 [] = Inr [] \<and> process_prices_to_rows decimal_round6 [] = Inr []"
    using d1 d2 e by simp
  have h2: "?s2 \<noteq> [] \<and> (\<forall>s\<in>set ?s2. utc_day (fst s) = Inr ''2025-01-01'') \<and>
      sorted_wrt (<) (map fst ?s2) \<and>
      process_prices_to_rows decimal_round6 [] = Inr [] \<and> process_prices_to_rows decimal_round6 [] = Inr []"
    using d1 d2 e by simp
  have h3: "process_prices_to_rows decimal_round6 [(''bitcoin'', Value ?ps)] = Inr ?rows" by code_simp
  have r1: "decimal_round6 (203 / 2) = 203 / 2" by code_simp
  have r2: "decimal_round6 (100123456789 / 1000000000) = 100123457 / 1000000" by code_simp
  have n1: "(100123457 / 1000000 :: rat) \<noteq> 100123456789 / 1000000000" by simp
  have n2: "\<not> six_decimals (100123456789 / 1000000000)" by code_simp
  note t1 = crypto_normalizer_collapse [where samples = ?s1 and day = "''2025-01-01''"
      and before = "[]" and rows_before = "[]" and after = "[]"
      and rows_after = "[]" and coin = "''bitcoin''" and ps = ?ps and rows = ?rows]
  note t2 = crypto_normalizer_collapse [where samples = ?s2 and day = "''2025-01-01''"
      and before = "[]" and rows_before = "[]" and after = "[]"
      and rows_after = "[]" and coin = "''bitcoin''" and ps = ?ps and rows = ?rows]
  from t1 h1 have a1: "process_prices_to_rows decimal_round6 ([] @ [(''bitcoin'', Value ?s1)] @ [])
     = Inr ([] @ [(''bitcoin'', ''2025-01-01'', decimal_round6 (snd (last ?s1)))] @ [])"
    by blast
  from t2 h2 have a2: "process_prices_to_rows decimal_round6 ([] @ [(''bitcoin'', Value ?s2)] @ [])
     = Inr ([] @ [(''bitcoin'', ''2025-01-01'', decimal_round6 (snd (last ?s2)))] @ [])"
    and g: "six_decimals (decimal_round6 (snd (last ?s2)))"
    and c: "\<bar>decimal_round6 (snd (last ?s2)) - snd (last ?s2)\<bar> \<le> 1 / 2000000"
    by blast+
  from t1 h3 have b: "sorted_wrt (<) (map (fst \<circ> snd) ?rows)" by blast
  from a1 r1 have 1: "process_prices_to_rows decimal_round6 ([] @ [(''bitcoin'', Value ?s1)] @ [])
     = Inr ([] @ [(''bitcoin'', ''2025-01-01'', 203 / 2)] @ [])" by simp
  from a2 r2 have 2: "process_prices_to_rows decimal_round6 ([] @ [(''bitcoin'', Value ?s2)] @ [])
     = Inr ([] @ [(''bitcoin'', ''2025-01-01'', 100123457 / 1000000)] @ [])" by simp
  from g r2 have 3: "six_decimals (100123457 / 1000000)" by simp
  from c r2 have 4: "\<bar>100123457 / 1000000 - 100123456789 / 1000000000 :: rat\<bar> \<le> 1 / 2000000" by simp
  from r2 n1 have 5: "decimal_round6 (100123456789 / 1000000000) \<noteq> 100123456789 / 1000000000" by simp
  from 1 2 r2 5 3 n2 4 h3 b show ?thesis by blast
qed

subsection \<open>Missing or null price data\<close>

text \<open>
  C10. A coin whose response has no \<^verbatim>\<open>"prices"\<close> entry, or has it null, makes the normalizer
  emit no row for that coin and does not make it fail: alone it yields the empty list,
  and inside a payload the result is that of the payload without the coin, so the rows
  of the other coins are emitted as they would be.
\<close>

theorem crypto_normalizer_total_on_missing_prices:
  "process_prices_to_rows round_price [(coin, Missing)] = Inr [] \<and>
   process_prices_to_rows round_price [(coin, Null)] = Inr [] \<and>
   process_prices_to_rows round_price (before @ [(coin, Missing)] @ after)
     = process_prices_to_rows round_price (before @ after) \<and>
   process_prices_to_rows round_price (before @ [(coin, Null)] @ after)
     = process_prices_to_rows round_price (before @ after)"
proof -
  have m: "process_prices_to_rows round_price [(coin, Missing)] = Inr []"
    and n: "process_prices_to_rows round_price [(coin, Null)] = Inr []"
    by (simp_all add: process_prices_to_rows_def)
  have "process_prices_to_rows round_price (before @ [(coin, Missing)] @ after)
     = process_prices_to_rows round_price (before @ after)"
    unfolding process_prices_to_rows_append m by (simp split: sum.splits)
  moreover have "process_prices_to_rows round_price (before @ [(coin, Null)] @ after)
     = process_prices_to_rows round_price (before @ after)"
    unfolding process_prices_to_rows_append n by (simp split: sum.splits)
  ultimately show ?thesis using m n by simp
qed

section \<open>Properties of the query layer\<close>

lemma filter_key_at_most_one:
  "distinct (map f xs) \<Longrightarrow> filter (\<lambda>x. f x = k) xs = (case find (\<lambda>x. f x = k) xs of None \<Rightarrow> [] | Some x \<Rightarrow> [x])"
proof (induction xs)
  case Nil
  show ?case by simp
next
  case (Cons x xs)
  show ?case
  proof (cases "f x = k")
    case True
    with Cons.prems have "k \<notin> f ` set xs" by simp
    then have "filter (\<lambda>y. f y = k) xs = []"
      by (force simp: filter_empty_conv)
    with True show ?thesis by simp
  next
    case False
    with Cons show ?thesis by simp
  qed
qed

lemma left_join_single:
  assumes "\<And>l. l \<in> set ls \<Longrightarrow> filter (on l) rs = (case g l of None \<Rightarrow> [] | Some r \<Rightarrow> [r])"
  shows "left_join ls rs on = map (\<lambda>l. (l, g l)) ls"
  using assms
proof (induction ls)
  case Nil
  show ?case by (simp add: left_join_def)
next
  case (Cons l ls)
  have "left_join ls rs on = map (\<lambda>l. (l, g l)) ls" using Cons by simp
  moreover have "filter (on l) rs = (case g l of None \<Rightarrow> [] | Some r \<Rightarrow> [r])"
    using Cons.prems by simp
  ultimately show ?case
    by (cases "g l") (simp_all add: left_join_def)
qed

lemma insort_key_map:
  "insort_key k (f x) (map f xs) = map f (insort_key (\<lambda>y. k (f y)) x xs)"
  by (induction xs) simp_all

lemma sort_key_map: "sort_key k (map f xs) = map f (sort_key (\<lambda>y. k (f y)) xs)"
  by (induction xs) (simp_all add: insort_key_map)

lemma coin_matches:
  assumes "unique_key crypto_key cp"
  shows "filter (\<lambda>b. d = fst b) (date_price_of_coin c cp) =
           (case price_on c d cp of None \<Rightarrow> [] | Some p \<Rightarrow> [(d, p)])"
proof -
  have "filter (\<lambda>b. d = fst b) (date_price_of_coin c cp) =
        map (\<lambda>(cid, date, price_usd). (date, price_usd)) (filter (\<lambda>r. crypto_key r = (c, d)) cp)"
    by (auto simp: date_price_of_coin_def filter_map comp_def case_prod_unfold intro!: arg_cong [where f = "map _"] filter_cong)
  also have "filter (\<lambda>r. crypto_key r = (c, d)) cp =
      (case find (\<lambda>r. crypto_key r = (c, d)) cp of None \<Rightarrow> [] | Some x \<Rightarrow> [x])"
    using assms unfolding unique_key_def by (rule filter_key_at_most_one)
  finally have eq: "filter (\<lambda>b. d = fst b) (date_price_of_coin c cp) =
      map (\<lambda>(cid, date, price_usd). (date, price_usd))
        (case find (\<lambda>r. crypto_key r = (c, d)) cp of None \<Rightarrow> [] | Some x \<Rightarrow> [x])" .
  show ?thesis
  proof (cases "find (\<lambda>r. crypto_key r = (c, d)) cp")
    case None
    with eq show ?thesis by (simp add: price_on_def)
  next
    case (Some x)
    then have "crypto_key x = (c, d)" by (auto simp: find_Some_iff)
    then obtain p where "x = (c, d, p)" by (cases x) auto
    with eq Some show ?thesis by (simp add: price_on_def)
  qed
qed

lemma ticker_matches:
  assumes "unique_key stock_key sp"
  shows "filter (\<lambda>s. d = fst s) (date_close_of_ticker t sp) =
           (case close_on t d sp of None \<Rightarrow> [] | Some c \<Rightarrow> [(d, c)])"
proof -
  have "filter (\<lambda>s. d = fst s) (date_close_of_ticker t sp) =
        map (\<lambda>(date, opn, high, low, close, volume, ticker). (date, close))
          (filter (\<lambda>r. stock_key r = (t, d)) sp)"
    by (auto simp: date_close_of_ticker_def filter_map comp_def case_prod_unfold intro!: arg_cong [where f = "map _"] filter_cong)
  also have "filter (\<lambda>r. stock_key r = (t, d)) sp =
      (case find (\<lambda>r. stock_key r = (t, d)) sp of None \<Rightarrow> [] | Some x \<Rightarrow> [x])"
    using assms unfolding unique_key_def by (rule filter_key_at_most_one)
  finally have eq: "filter (\<lambda>s. d = fst s) (date_close_of_ticker t sp) =
      map (\<lambda>(date, opn, high, low, close, volume, ticker). (date, close))
        (case find (\<lambda>r. stock_key r = (t, d)) sp of None \<Rightarrow> [] | Some x \<Rightarrow> [x])" .
  show ?thesis
  proof (cases "find (\<lambda>r. stock_key r = (t, d)) sp")
    case None
    with eq show ?thesis by (simp add: close_on_def)
  next
    case (Some x)
    then have "stock_key x = (t, d)" by (auto simp: find_Some_iff)
    then obtain a b c e f where "x = (d, a, b, c, e, f, t)" by (cases x) auto
    with eq Some show ?thesis by (simp add: close_on_def)
  qed
qed

lemma close_on_None: "(t, dt) \<notin> set (map stock_key sp) \<Longrightarrow> close_on t dt sp = None"
  by (force simp: close_on_def find_None_iff)

lemma snapshot_sql_eq:
  assumes t: "oil_price d = Some oil" "Crypto_prices d = Some cp" "stock_price d = Some sp"
    and ucp: "unique_key crypto_key cp" and usp: "unique_key stock_key sp"
  shows "snapshot_sql d start_s end_s =
           Inr (map (\<lambda>(date, price).
                      (date, price_on ''bitcoin'' date cp, price,
                       close_on ''^GSPC'' date sp, close_on ''^NSEI'' date sp))
                  (sort_key fst (filter (\<lambda>(date, price). start_s \<le> date \<and> date \<le> end_s) oil)))"
proof -
  let ?b = "date_price_of_coin ''bitcoin'' cp"
  let ?s = "date_close_of_ticker ''^GSPC'' sp"
  let ?n = "date_close_of_ticker ''^NSEI'' sp"
  let ?g1 = "\<lambda>ro :: oil_price_row. map_option (Pair (fst ro)) (price_on ''bitcoin'' (fst ro) cp)"
  let ?g2 = "\<lambda>l :: oil_price_row \<times> (string \<times> rat) option.
               map_option (Pair (fst (fst l))) (close_on ''^GSPC'' (fst (fst l)) sp)"
  let ?g3 = "\<lambda>l :: (oil_price_row \<times> (string \<times> rat) option) \<times> (string \<times> rat) option.
               map_option (Pair (fst (fst (fst l)))) (close_on ''^NSEI'' (fst (fst (fst l))) sp)"
  let ?j1 = "left_join oil ?b (\<lambda>ro rb. fst ro = fst rb)"
  let ?j2 = "left_join ?j1 ?s (\<lambda>(ro, rb) rs. fst ro = fst rs)"
  let ?j3 = "left_join ?j2 ?n (\<lambda>((ro, rb), rs) rn. fst ro = fst rn)"
  let ?h = "\<lambda>ro. (((ro, ?g1 ro), ?g2 (ro, ?g1 ro)), ?g3 ((ro, ?g1 ro), ?g2 (ro, ?g1 ro)))"
  have j1: "?j1 = map (\<lambda>l. (l, ?g1 l)) oil"
  proof (rule left_join_single)
    fix l
    show "filter (\<lambda>rb. fst l = fst rb) ?b = (case ?g1 l of None \<Rightarrow> [] | Some r \<Rightarrow> [r])"
      using coin_matches [OF ucp, of "fst l" "''bitcoin''"]
      by (cases "price_on ''bitcoin'' (fst l) cp") simp_all
  qed
  have j2: "left_join xs ?s (\<lambda>(ro, rb) rs. fst ro = fst rs) = map (\<lambda>l. (l, ?g2 l)) xs" for xs
  proof (rule left_join_single)
    fix l :: "oil_price_row \<times> (string \<times> rat) option"
    show "filter ((\<lambda>(ro, rb) rs. fst ro = fst rs) l) ?s = (case ?g2 l of None \<Rightarrow> [] | Some r \<Rightarrow> [r])"
      using ticker_matches [OF usp, of "fst (fst l)" "''^GSPC''"]
      by (cases "close_on ''^GSPC'' (fst (fst l)) sp") (simp_all add: case_prod_unfold)
  qed
  have j3: "left_join xs ?n (\<lambda>((ro, rb), rs) rn. fst ro = fst rn) = map (\<lambda>l. (l, ?g3 l)) xs" for xs
  proof (rule left_join_single)
    fix l :: "(oil_price_row \<times> (string \<times> rat) option) \<times> (string \<times> rat) option"
    show "filter ((\<lambda>((ro, rb), rs) rn. fst ro = fst rn) l) ?n = (case ?g3 l of None \<Rightarrow> [] | Some r \<Rightarrow> [r])"
      using ticker_matches [OF usp, of "fst (fst (fst l))" "''^NSEI''"]
      by (cases "close_on ''^NSEI'' (fst (fst (fst l))) sp") (simp_all add: case_prod_unfold)
  qed
  have j: "?j3 = map ?h oil"
    by (simp only: j1 j2 j3) (simp add: comp_def)
  have w: "filter (\<lambda>(((ro, rb), rs), rn). start_s \<le> fst ro \<and> fst ro \<le> end_s) (map ?h oil)
      = map ?h (filter (\<lambda>(date, price). start_s \<le> date \<and> date \<le> end_s) oil)"
    by (simp add: filter_map comp_def case_prod_unfold)
  have r: "sort_key (\<lambda>(((ro, rb), rs), rn). fst ro) (map ?h xs) = map ?h (sort_key fst xs)" for xs
    by (simp add: sort_key_map case_prod_unfold)
  have p: "map (\<lambda>(((ro, rb), rs), rn).
                (fst ro, map_option snd rb, snd ro, map_option snd rs, map_option snd rn)) (map ?h xs)
       = map (\<lambda>(date, price).
                      (date, price_on ''bitcoin'' date cp, price,
                       close_on ''^GSPC'' date sp, close_on ''^NSEI'' date sp)) xs" for xs
    by (simp add: comp_def case_prod_unfold option.map_comp option.map_ident)
  have "snapshot_sql d start_s end_s =
      Inr (map (\<lambda>(((ro, rb), rs), rn).
                (fst ro, map_option snd rb, snd ro, map_option snd rs, map_option snd rn))
             (sort_key (\<lambda>(((ro, rb), rs), rn). fst ro)
                (filter (\<lambda>(((ro, rb), rs), rn). start_s \<le> fst ro \<and> fst ro \<le> end_s) ?j3)))"
    using t by (simp add: snapshot_sql_def Let_def)
  also have "\<dots> = Inr (map (\<lambda>(date, price).
                      (date, price_on ''bitcoin'' date cp, price,
                       close_on ''^GSPC'' date sp, close_on ''^NSEI'' date sp))
                  (sort_key fst (filter (\<lambda>(date, price). start_s \<le> date \<and> date \<le> end_s) oil)))"
    unfolding j w r p ..
  finally show ?thesis .
qed

subsection \<open>Join completeness on missing dates\<close>

text \<open>
  C8. In a database that has the three price tables, with the primary keys of
  \<^verbatim>\<open>Crypto_prices\<close> and \<^verbatim>\<open>stock_price\<close> respected, the snapshot query returns exactly one
  row for every commodity row of the date range, in date order: the commodity rows are
  neither dropped nor duplicated, however many tickers have a row on the same date. The
  columns joined to it hold the bitcoin price and the closes of the two tickers on that
  date, and are null where no such row is stored.
\<close>

theorem snapshot_join_complete:
  assumes "oil_price d = Some oil" "Crypto_prices d = Some cp" "stock_price d = Some sp"
    and "unique_key crypto_key cp" and "unique_key stock_key sp"
  shows "snapshot_sql d start_s end_s =
           Inr (map (\<lambda>(date, price).
                      (date, price_on ''bitcoin'' date cp, price,
                       close_on ''^GSPC'' date sp, close_on ''^NSEI'' date sp))
                  (oil_rows_in_range start_s end_s oil)) \<and>
         map (\<lambda>(date, btc_price, price, sp500_close, nifty_close). (date, price))
           (map (\<lambda>(date, price).
                      (date, price_on ''bitcoin'' date cp, price,
                       close_on ''^GSPC'' date sp, close_on ''^NSEI'' date sp))
                  (oil_rows_in_range start_s end_s oil))
           = oil_rows_in_range start_s end_s oil \<and>
         ((t, dt) \<notin> set (map stock_key sp) \<longrightarrow> close_on t dt sp = None)"
proof (intro conjI impI)
  show "snapshot_sql d start_s end_s =
           Inr (map (\<lambda>(date, price).
                      (date, price_on ''bitcoin'' date cp, price,
                       close_on ''^GSPC'' date sp, close_on ''^NSEI'' date sp))
                  (oil_rows_in_range start_s end_s oil))"
    unfolding oil_rows_in_range_def using assms by (rule snapshot_sql_eq)
  show "map (\<lambda>(date, btc_price, price, sp500_close, nifty_close). (date, price))
           (map (\<lambda>(date, price).
                      (date, price_on ''bitcoin'' date cp, price,
                       close_on ''^GSPC'' date sp, close_on ''^NSEI'' date sp))
                  (oil_rows_in_range start_s end_s oil))
           = oil_rows_in_range start_s end_s oil"
    by (simp add: comp_def case_prod_unfold)
  assume "(t, dt) \<notin> set (map stock_key sp)"
  then show "close_on t dt sp = None" by (rule close_on_None)
qed

text \<open>
  An instance: of the commodity dates 2024-01-02, 2024-01-03 and 2024-01-05 the first two
  lie in the range. On 2024-01-02 three tickers have a row, and the commodity row comes
  out once; on 2024-01-03 there is no bitcoin price and no \<^verbatim>\<open>^NSEI\<close> row, and the row
  comes out with nulls there.
\<close>

theorem snapshot_join_complete_witness:
  "snapshot_sql report_db ''2024-01-01'' ''2024-01-04'' =
     Inr [(''2024-01-02'', Some 42000, 70, Some 2, Some 6),
          (''2024-01-03'', None, 71, Some 4, None)] \<and>
   (''^NSEI'', ''2024-01-03'') \<notin> set (map stock_key (rows_of (stock_price report_db))) \<and>
   close_on ''^NSEI'' ''2024-01-03'' (rows_of (stock_price report_db)) = None"
proof -
  let ?oil = "[(''2024-01-03'', 71), (''2024-01-02'', 70), (''2024-01-05'', 73)] :: oil_price_row list"
  let ?cp = "[(''bitcoin'', ''2024-01-02'', 42000), (''ethereum'', ''2024-01-02'', 2300)] :: crypto_price_row list"
  let ?sp = "[(''2024-01-02'', 1, 2, 1, 2, 10, ''^GSPC''),
              (''2024-01-02'', 5, 6, 5, 6, 20, ''^NSEI''),
              (''2024-01-03'', 3, 4, 3, 4, 30, ''^GSPC''),
              (''2024-01-02'', 7, 8, 7, 8, 40, ''^IXIC'')] :: stock_price_row list"
  have h1: "oil_price report_db = Some ?oil" and h2: "Crypto_prices report_db = Some ?cp"
    and h3: "stock_price report_db = Some ?sp"
    by (simp_all add: report_db_def)
  have h4: "unique_key crypto_key ?cp" by (simp add: unique_key_def)
  have h5: "unique_key stock_key ?sp" by (simp add: unique_key_def)
  have h6: "(''^NSEI'', ''2024-01-03'') \<notin> set (map stock_key ?sp)" by simp
  note t = snapshot_join_complete [OF h1 h2 h3 h4 h5, of "''2024-01-01''" "''2024-01-04''" "''^NSEI''" "''2024-01-03''"]
  have e: "map (\<lambda>(date, price).
                      (date, price_on ''bitcoin'' date ?cp, price,
                       close_on ''^GSPC'' date ?sp, close_on ''^NSEI'' date ?sp))
                  (oil_rows_in_range ''2024-01-01'' ''2024-01-04'' ?oil)
     = [(''2024-01-02'', Some 42000, 70, Some 2, Some 6), (''2024-01-03'', None, 71, Some 4, None)]"
    by code_simp
  from t e h6 show ?thesis by (simp add: h3 rows_of_def)
qed

section \<open>Properties of the fetchers\<close>

lemma requests_made_simps [simp]:
  "requests_made [] = 0"
  "requests_made (Get r # tr) = Suc (requests_made tr)"
  "requests_made (Sleep k # tr) = requests_made tr"
  "requests_made (Report r # tr) = requests_made tr"
  "requests_made (tr @ tr') = requests_made tr + requests_made tr'"
  by (simp_all add: requests_made_def)

lemma attempts_3: "[0..<MAX_RETRIES] = [0, 1, 2]"
  by (simp add: MAX_RETRIES_def numeral_3_eq_3 upt_rec)

lemma attempts_4: "[1..<RATE_LIMIT_RETRIES + 1] = [1, 2, 3, 4]"
  by (simp add: RATE_LIMIT_RETRIES_def upt_rec)

subsection \<open>The retry bound\<close>

text \<open>
  \<^verbatim>\<open>fetch_page\<close> on a page that is throttled every time: three requests, a wait of 60
  seconds between them, then the \<^verbatim>\<open>HTTPError\<close> of the last response is raised.
\<close>

lemma fetch_page_always_throttled:
  assumes "\<forall>n. \<exists>body. srv n (MarketsPage page) = Response 429 body"
  shows "fetch_page srv page tr =
           (Inl (HTTPError 429),
            tr @ [Get (MarketsPage page), Sleep 60, Get (MarketsPage page), Sleep 60, Get (MarketsPage page)])"
proof -
  from assms have "\<exists>f. \<forall>n. srv n (MarketsPage page) = Response 429 (f n)" by metis
  then obtain f where f: "\<And>n. srv n (MarketsPage page) = Response 429 (f n)" by blast
  show ?thesis
    unfolding fetch_page_def attempts_3
    by (simp add: page_attempt_def requests_get_def f MAX_RETRIES_def RETRY_DELAY_def)
qed

text \<open>
  The retry loop of \<^verbatim>\<open>download_all_tickers\<close> on a ticker that is rate-limited every time:
  four downloads, a wait of 45 seconds between them, then the skip is reported and
  \<^verbatim>\<open>df\<close> is the empty frame.
\<close>

lemma ticker_always_limited:
  assumes "\<forall>n. yf n t = RateLimited"
  shows "for_loop (ticker_attempt yf t) [1..<RATE_LIMIT_RETRIES + 1] (tr, df) =
           (None, (tr @ [Get (TickerHistory t), Sleep 45, Get (TickerHistory t), Sleep 45,
                         Get (TickerHistory t), Sleep 45, Get (TickerHistory t),
                         Report (TickerHistory t)], Some []))"
  unfolding attempts_4
  by (simp add: ticker_attempt_def download_ticker_history_def assms
      RATE_LIMIT_RETRIES_def RATE_LIMIT_WAIT_SEC_def)

text \<open>
  C3 fails on the coin fetcher. \<^verbatim>\<open>fetch_market_chart\<close> on a coin whose every response is a
  429 with a JSON body sends one request, sleeps once, and returns the body of the
  throttled response as the coin's data: after \<^verbatim>\<open>time.sleep(RETRY_DELAY)\<close> nothing sends
  control back to the loop head, so \<^verbatim>\<open>return response.json()\<close> runs on the 429 response.
  The two sibling fetchers above retry up to their bound.
\<close>

theorem fetch_market_chart_returns_throttled_body:
  "fetch_market_chart (always_throttling body) cid tr
     = (Some body, tr @ [Get (MarketChart cid), Sleep 60])"
  unfolding fetch_market_chart_def attempts_3
  by (simp add: market_chart_attempt_def requests_get_def always_throttling_def return_json_def
      MAX_RETRIES_def RETRY_DELAY_def)

subsection \<open>The ticker that is stored\<close>

text \<open>
  C7 fails on the join key. For the ticker \<^verbatim>\<open>^GSPC\<close> of \<^verbatim>\<open>TICKERS\<close> the normalizer emits, and
  \<^verbatim>\<open>main\<close> stores, rows whose ticker is \<^verbatim>\<open>GSPC\<close>: the canonical ticker is not preserved.
  The query of data\_report.py for the ticker \<^verbatim>\<open>^GSPC\<close> then finds no row, while the rows
  are there under \<^verbatim>\<open>GSPC\<close>.
\<close>

theorem stored_ticker_loses_caret:
  "download_all_tickers one_bar_each [''^GSPC''] []
     = (Inr [(''2024-01-02'', 4700, 4750, 4690, 4740, 1000, ''GSPC'')], [Get (TickerHistory ''^GSPC'')]) \<and>
   prepare_stock_price_rows decimal_round6 [(''2024-01-02'', 4700, 4750, 4690, 4740, 1000, ''GSPC'')]
     = [(''2024-01-02'', 4700, 4750, 4690, 4740, 1000, ''GSPC'')] \<and>
   fst (stock_price_main decimal_round6 one_bar_each empty_db) = Inr (Inr ()) \<and>
   all_stock_prices_for_ticker ''^GSPC'' (snd (stock_price_main decimal_round6 one_bar_each empty_db)) = Inr [] \<and>
   all_stock_prices_for_ticker ''GSPC'' (snd (stock_price_main decimal_round6 one_bar_each empty_db))
     = Inr [(''2024-01-02'', 4700, 4750, 4690, 4740, 1000, ''GSPC'')]"
  by code_simp

subsection \<open>Failure of one unit in a batch\<close>

lemma fetch_market_chart_fails:
  assumes "coin_always_fails srv c"
  shows "fetch_market_chart srv c tr = (None, tr @ [Get (MarketChart c), Report (MarketChart c)])"
proof -
  from assms have f: "failing_reply (srv (requests_made tr) (MarketChart c))"
    and t: "\<not> throttled_reply (srv (requests_made tr) (MarketChart c))"
    by (simp_all add: coin_always_fails_def)
  show ?thesis
    unfolding fetch_market_chart_def attempts_3
    using f t
    by (cases "srv (requests_made tr) (MarketChart c)")
       (simp_all add: market_chart_attempt_def requests_get_def failing_reply_def throttled_reply_def)
qed

lemma fetch_market_chart_ok:
  assumes "\<forall>n. srv n (MarketChart c) = Response 200 (Some j)"
  shows "fetch_market_chart srv c tr = (Some j, tr @ [Get (MarketChart c)])"
  unfolding fetch_market_chart_def attempts_3
  by (simp add: market_chart_attempt_def requests_get_def assms return_json_def is_error_status_def)

lemma fetch_market_chart_trace:
  "set tr \<subseteq> set (snd (fetch_market_chart srv c tr))"
  unfolding fetch_market_chart_def attempts_3
  by (cases "srv (requests_made tr) (MarketChart c)")
     (auto simp: market_chart_attempt_def requests_get_def return_json_def split: option.splits)

lemma daily_prices_loop_absent:
  assumes "coin_always_fails srv c"
  shows "c \<notin> fst ` set result \<Longrightarrow> c \<notin> fst ` set (fst (daily_prices_loop srv n ics result tr))"
proof (induction ics arbitrary: result tr)
  case Nil
  then show ?case by simp
next
  case (Cons ic ics)
  obtain i c0 where ic: "ic = (i, c0)" by (cases ic)
  obtain data tr1 where f: "fetch_market_chart srv c0 tr = (data, tr1)" by (cases "fetch_market_chart srv c0 tr")
  let ?result = "case data of None \<Rightarrow> result | Some j \<Rightarrow> dict_set c0 j result"
  have "c \<notin> fst ` set ?result"
  proof (cases "c0 = c")
    case True
    with f fetch_market_chart_fails [OF assms, of tr] have "data = None" by simp
    with Cons.prems show ?thesis by simp
  next
    case False
    with Cons.prems show ?thesis by (cases data) (simp_all add: keys_dict_set)
  qed
  from Cons.IH [OF this] ic f show ?case by simp
qed

lemma daily_prices_loop_trace:
  "set tr \<subseteq> set (snd (daily_prices_loop srv n ics result tr))"
proof (induction ics arbitrary: result tr)
  case Nil
  show ?case by simp
next
  case (Cons ic ics)
  obtain i c0 where ic: "ic = (i, c0)" by (cases ic)
  obtain data tr1 where f: "fetch_market_chart srv c0 tr = (data, tr1)" by (cases "fetch_market_chart srv c0 tr")
  from fetch_market_chart_trace [of tr srv c0] f have 1: "set tr \<subseteq> set tr1" by simp
  let ?tr2 = "if i < n then tr1 @ [Sleep DELAY_SECONDS] else tr1"
  have 2: "set tr1 \<subseteq> set ?tr2" by auto
  have 3: "set ?tr2 \<subseteq> set (snd (daily_prices_loop srv n ics
      (case data of None \<Rightarrow> result | Some j \<Rightarrow> dict_set c0 j result) ?tr2))"
    by (rule Cons.IH)
  from 1 2 3 ic f show ?case by (simp del: set_append)
qed

lemma daily_prices_loop_reported:
  assumes "coin_always_fails srv c" "c \<in> snd ` set ics"
  shows "Report (MarketChart c) \<in> set (snd (daily_prices_loop srv n ics result tr))"
  using assms(2)
proof (induction ics arbitrary: result tr)
  case Nil
  then show ?case by simp
next
  case (Cons ic ics)
  obtain i c0 where ic: "ic = (i, c0)" by (cases ic)
  obtain data tr1 where f: "fetch_market_chart srv c0 tr = (data, tr1)" by (cases "fetch_market_chart srv c0 tr")
  let ?tr2 = "if i < n then tr1 @ [Sleep DELAY_SECONDS] else tr1"
  let ?result = "case data of None \<Rightarrow> result | Some j \<Rightarrow> dict_set c0 j result"
  show ?case
  proof (cases "c0 = c")
    case True
    with f fetch_market_chart_fails [OF assms(1), of tr] have "Report (MarketChart c) \<in> set ?tr2" by auto
    with daily_prices_loop_trace [of ?tr2 srv n ics ?result] ic f show ?thesis by auto
  next
    case False
    with Cons.prems ic have "c \<in> snd ` set ics" by auto
    from Cons.IH [OF this] ic f show ?thesis by simp
  qed
qed

lemma map_of_dict_set_other: "k' \<noteq> k \<Longrightarrow> map_of (dict_set k v m) k' = map_of m k'"
  by (simp add: map_of_dict_set)

lemma daily_prices_loop_present:
  assumes "\<forall>n. srv n (MarketChart c) = Response 200 (Some j)"
  shows "c \<in> snd ` set ics \<or> map_of result c = Some j \<Longrightarrow>
         map_of (fst (daily_prices_loop srv n ics result tr)) c = Some j"
proof (induction ics arbitrary: result tr)
  case Nil
  then show ?case by simp
next
  case (Cons ic ics)
  obtain i c0 where ic: "ic = (i, c0)" by (cases ic)
  obtain data tr1 where f: "fetch_market_chart srv c0 tr = (data, tr1)" by (cases "fetch_market_chart srv c0 tr")
  let ?result = "case data of None \<Rightarrow> result | Some j \<Rightarrow> dict_set c0 j result"
  have "c \<in> snd ` set ics \<or> map_of ?result c = Some j"
  proof (cases "c0 = c")
    case True
    have "fetch_market_chart srv c tr = (Some j, tr @ [Get (MarketChart c)])"
      using assms by (rule fetch_market_chart_ok)
    with f True have "data = Some j" by simp
    with True show ?thesis by (simp add: map_of_dict_set)
  next
    case False
    with Cons.prems ic have "c \<in> snd ` set ics \<or> map_of result c = Some j" by auto
    with False show ?thesis by (cases data) (auto simp: map_of_dict_set)
  qed
  from Cons.IH [OF this] ic f show ?case by simp
qed

lemma snd_enumerate_from: "snd ` set (enumerate_from k xs) = set xs"
proof -
  have "map snd (enumerate_from k xs) = xs" by (simp add: enumerate_from_def)
  then have "set (map snd (enumerate_from k xs)) = set xs" by simp
  then show ?thesis by simp
qed

lemma fetch_page_fails:
  assumes "page_always_fails srv p"
  shows "\<exists>e tr'. fetch_page srv p tr = (Inl e, tr')"
proof -
  have f: "failing_reply (srv n (MarketsPage p))" for n
    using assms by (simp add: page_always_fails_def)
  have e429: "is_error_status 429" by (simp add: is_error_status_def)
  let ?n = "requests_made tr"
  show ?thesis
    unfolding fetch_page_def attempts_3
    using f [of ?n] f [of "Suc ?n"] f [of "Suc (Suc ?n)"]
    by (cases "srv ?n (MarketsPage p)"; cases "srv (Suc ?n) (MarketsPage p)";
        cases "srv (Suc (Suc ?n)) (MarketsPage p)")
       (simp_all add: page_attempt_def requests_get_def failing_reply_def MAX_RETRIES_def)
qed

lemma all_pages_loop_fails:
  assumes "page_always_fails srv p"
  shows "p \<in> set pages \<Longrightarrow> \<exists>e tr'. all_pages_loop srv pages all_data tr = (Inl e, tr')"
proof (induction pages arbitrary: all_data tr)
  case Nil
  then show ?case by simp
next
  case (Cons q pages)
  show ?case
  proof (cases "fetch_page srv q tr")
    case (Pair res tr1)
    show ?thesis
    proof (cases res)
      case (Inl e)
      with Pair show ?thesis by simp
    next
      case (Inr data)
      with Pair fetch_page_fails [OF assms, of tr] have "q \<noteq> p" by auto
      with Cons.prems have "p \<in> set pages" by simp
      from Cons.IH [OF this] Pair Inr show ?thesis by simp
    qed
  qed
qed

lemma ticker_loop_step:
  "for_loop (ticker_attempt yf t) (a # as) (tr, df) =
     (case yf (requests_made tr) t of
        History bars \<Rightarrow> (Some None, (tr @ [Get (TickerHistory t)], Some (ticker_frame t bars)))
      | Failed \<Rightarrow> (Some (Some YFOtherError), (tr @ [Get (TickerHistory t)], df))
      | RateLimited \<Rightarrow>
          if a < RATE_LIMIT_RETRIES
          then for_loop (ticker_attempt yf t) as
                 (tr @ [Get (TickerHistory t), Sleep RATE_LIMIT_WAIT_SEC], df)
          else for_loop (ticker_attempt yf t) as
                 (tr @ [Get (TickerHistory t), Report (TickerHistory t)], Some []))"
  by (simp add: ticker_attempt_def download_ticker_history_def split: yf_reply.splits)

text \<open>
  How the retry loop of one ticker can end, when its last attempt has the number
  \<^verbatim>\<open>RATE_LIMIT_RETRIES\<close>: an exception other than the rate limit, a frame that
  \<^verbatim>\<open>yfinance\<close> answered, or the skip with the empty frame.
\<close>

lemma ticker_loop_outcome:
  assumes "as \<noteq> []" "last as = RATE_LIMIT_RETRIES"
  shows "\<exists>res tr1 df1. for_loop (ticker_attempt yf t) as (tr, df) = (res, (tr1, df1)) \<and> set tr \<subseteq> set tr1 \<and>
     ((res = Some (Some YFOtherError) \<and> (\<exists>n. yf n t = Failed)) \<or>
      (res = Some None \<and> (\<exists>n bars. yf n t = History bars \<and> df1 = Some (ticker_frame t bars))) \<or>
      (res = None \<and> df1 = Some [] \<and> Report (TickerHistory t) \<in> set tr1))"
  using assms
proof (induction as arbitrary: tr df)
  case Nil
  then show ?case by simp
next
  case (Cons a as)
  show ?case
  proof (cases "yf (requests_made tr) t")
    case (History bars)
    then show ?thesis by (auto simp: ticker_loop_step simp del: for_loop.simps)
  next
    case Failed
    then show ?thesis by (auto simp: ticker_loop_step simp del: for_loop.simps)
  next
    case RateLimited
    show ?thesis
    proof (cases "as = []")
      case True
      with Cons.prems have "a = RATE_LIMIT_RETRIES" by simp
      with True RateLimited show ?thesis by (auto simp: ticker_loop_step simp del: for_loop.simps(2))
    next
      case False
      with Cons.prems have l: "last as = RATE_LIMIT_RETRIES" by simp
      let ?tr = "if a < RATE_LIMIT_RETRIES
                 then tr @ [Get (TickerHistory t), Sleep RATE_LIMIT_WAIT_SEC]
                 else tr @ [Get (TickerHistory t), Report (TickerHistory t)]"
      let ?df = "if a < RATE_LIMIT_RETRIES then df else Some []"
      from Cons.IH [OF False l, of ?tr ?df] obtain res tr1 df1 where
        r: "for_loop (ticker_attempt yf t) as (?tr, ?df) = (res, (tr1, df1))" and s: "set ?tr \<subseteq> set tr1"
        and o: "(res = Some (Some YFOtherError) \<and> (\<exists>n. yf n t = Failed)) \<or>
      (res = Some None \<and> (\<exists>n bars. yf n t = History bars \<and> df1 = Some (ticker_frame t bars))) \<or>
      (res = None \<and> df1 = Some [] \<and> Report (TickerHistory t) \<in> set tr1)"
        by blast
      have "for_loop (ticker_attempt yf t) (a # as) (tr, df) = (res, (tr1, df1))"
        using RateLimited r by (simp add: ticker_loop_step del: for_loop.simps split: if_splits)
      moreover have "set tr \<subseteq> set tr1" using s by (auto split: if_splits)
      ultimately show ?thesis using o by blast
    qed
  qed
qed

lemma attempts_4_last:
  "[1..<RATE_LIMIT_RETRIES + 1] \<noteq> [] \<and> last [1..<RATE_LIMIT_RETRIES + 1] = RATE_LIMIT_RETRIES"
  by (simp add: attempts_4) (simp add: RATE_LIMIT_RETRIES_def)

lemma ticker_always_history:
  assumes "\<forall>n. yf n t = History bars"
  shows "for_loop (ticker_attempt yf t) [1..<RATE_LIMIT_RETRIES + 1] (tr, df) =
           (Some None, (tr @ [Get (TickerHistory t)], Some (ticker_frame t bars)))"
  unfolding attempts_4 by (simp add: ticker_loop_step assms del: for_loop.simps)

lemma ticker_always_failed:
  assumes "\<forall>n. yf n t = Failed"
  shows "for_loop (ticker_attempt yf t) [1..<RATE_LIMIT_RETRIES + 1] (tr, df) =
           (Some (Some YFOtherError), (tr @ [Get (TickerHistory t)], df))"
  unfolding attempts_4 by (simp add: ticker_loop_step assms del: for_loop.simps)

lemma tickers_loop_isolates:
  assumes "\<forall>it\<in>set its. \<forall>n. yf n (snd it) \<noteq> Failed"
  shows "\<exists>frames' tr'. tickers_loop yf its frames (tr, df) = (Inr frames', tr') \<and>
      set tr \<subseteq> set tr' \<and> set frames \<subseteq> set frames' \<and>
      (\<forall>f\<in>set frames'. f \<in> set frames \<or>
          (\<exists>it\<in>set its. \<exists>n bars. yf n (snd it) = History bars \<and> f = ticker_frame (snd it) bars)) \<and>
      (\<forall>it\<in>set its. (\<forall>n. yf n (snd it) = RateLimited) \<longrightarrow> Report (TickerHistory (snd it)) \<in> set tr') \<and>
      (\<forall>it\<in>set its. \<forall>bars. (\<forall>n. yf n (snd it) = History bars) \<longrightarrow>
          ticker_frame (snd it) bars = [] \<or> ticker_frame (snd it) bars \<in> set frames')"
  using assms
proof (induction its arbitrary: frames tr df)
  case Nil
  then show ?case by simp
next
  case (Cons it its)
  obtain i t where it: "it = (i, t)" by (cases it)
  let ?tr0 = "if 0 < i then tr @ [Sleep DELAY_BETWEEN_TICKERS] else tr"
  from ticker_loop_outcome [of "[1..<RATE_LIMIT_RETRIES + 1]" yf t ?tr0 df] attempts_4_last
  obtain res tr1 df1 where
    r: "for_loop (ticker_attempt yf t) [1..<RATE_LIMIT_RETRIES + 1] (?tr0, df) = (res, (tr1, df1))"
    and s: "set ?tr0 \<subseteq> set tr1"
    and o: "(res = Some (Some YFOtherError) \<and> (\<exists>n. yf n t = Failed)) \<or>
      (res = Some None \<and> (\<exists>n bars. yf n t = History bars \<and> df1 = Some (ticker_frame t bars))) \<or>
      (res = None \<and> df1 = Some [] \<and> Report (TickerHistory t) \<in> set tr1)"
    by blast
  from Cons.prems it have nf: "\<forall>n. yf n t \<noteq> Failed" by simp
  with o obtain f where df1: "df1 = Some f" and res: "res = Some None \<or> res = None"
    and orig: "f = [] \<or> (\<exists>n bars. yf n t = History bars \<and> f = ticker_frame t bars)"
    and rep: "res = None \<longrightarrow> Report (TickerHistory t) \<in> set tr1"
    by auto
  let ?frames = "if f \<noteq> [] then frames @ [f] else frames"
  have step: "tickers_loop yf (it # its) frames (tr, df) = tickers_loop yf its ?frames (tr1, Some f)"
    using it r df1 res by auto
  from Cons.prems have "\<forall>it\<in>set its. \<forall>n. yf n (snd it) \<noteq> Failed" by simp
  from Cons.IH [OF this, of ?frames tr1 "Some f"] obtain frames' tr' where
    l: "tickers_loop yf its ?frames (tr1, Some f) = (Inr frames', tr')"
    and t: "set tr1 \<subseteq> set tr'" and fs: "set ?frames \<subseteq> set frames'"
    and og: "\<forall>g\<in>set frames'. g \<in> set ?frames \<or>
          (\<exists>it\<in>set its. \<exists>n bars. yf n (snd it) = History bars \<and> g = ticker_frame (snd it) bars)"
    and rp: "\<forall>it\<in>set its. (\<forall>n. yf n (snd it) = RateLimited) \<longrightarrow> Report (TickerHistory (snd it)) \<in> set tr'"
    and pr: "\<forall>it\<in>set its. \<forall>bars. (\<forall>n. yf n (snd it) = History bars) \<longrightarrow>
          ticker_frame (snd it) bars = [] \<or> ticker_frame (snd it) bars \<in> set frames'"
    by blast
  have 1: "set tr \<subseteq> set tr'" using s t by (auto split: if_splits)
  have 2: "set frames \<subseteq> set frames'" using fs by (auto split: if_splits)
  have 3: "\<forall>g\<in>set frames'. g \<in> set frames \<or>
          (\<exists>it\<in>set (it # its). \<exists>n bars. yf n (snd it) = History bars \<and> g = ticker_frame (snd it) bars)"
  proof
    fix g assume "g \<in> set frames'"
    with og have "g \<in> set ?frames \<or>
          (\<exists>it\<in>set its. \<exists>n bars. yf n (snd it) = History bars \<and> g = ticker_frame (snd it) bars)" by blast
    then show "g \<in> set frames \<or>
          (\<exists>it\<in>set (it # its). \<exists>n bars. yf n (snd it) = History bars \<and> g = ticker_frame (snd it) bars)"
      using orig it by (auto split: if_splits)
  qed
  have 4: "\<forall>it\<in>set (it # its). (\<forall>n. yf n (snd it) = RateLimited) \<longrightarrow> Report (TickerHistory (snd it)) \<in> set tr'"
  proof -
    have "Report (TickerHistory t) \<in> set tr'" if "\<forall>n. yf n t = RateLimited"
    proof -
      have "for_loop (ticker_attempt yf t) [1..<RATE_LIMIT_RETRIES + 1] (?tr0, df) =
           (None, (?tr0 @ [Get (TickerHistory t), Sleep 45, Get (TickerHistory t), Sleep 45,
                         Get (TickerHistory t), Sleep 45, Get (TickerHistory t),
                         Report (TickerHistory t)], Some []))"
        using that by (rule ticker_always_limited)
      with r have "res = None" by simp
      with rep t show ?thesis by blast
    qed
    with rp it show ?thesis by simp
  qed
  have 5: "\<forall>it\<in>set (it # its). \<forall>bars. (\<forall>n. yf n (snd it) = History bars) \<longrightarrow>
          ticker_frame (snd it) bars = [] \<or> ticker_frame (snd it) bars \<in> set frames'"
  proof -
    have "ticker_frame t bars = [] \<or> ticker_frame t bars \<in> set frames'" if "\<forall>n. yf n t = History bars" for bars
    proof -
      have "for_loop (ticker_attempt yf t) [1..<RATE_LIMIT_RETRIES + 1] (?tr0, df) =
           (Some None, (?tr0 @ [Get (TickerHistory t)], Some (ticker_frame t bars)))"
        using that by (rule ticker_always_history)
      with r df1 have "f = ticker_frame t bars" by simp
      with fs show ?thesis by (auto split: if_splits)
    qed
    with pr it show ?thesis by simp
  qed
  from step l 1 2 3 4 5 show ?case by simp
qed

lemma tickers_loop_raises:
  assumes "\<forall>n. yf n t = Failed"
  shows "t \<in> snd ` set its \<Longrightarrow> \<exists>e tr'. tickers_loop yf its frames st = (Inl e, tr')"
proof (induction its arbitrary: frames st)
  case Nil
  then show ?case by simp
next
  case (Cons it its)
  obtain i t0 where it: "it = (i, t0)" by (cases it)
  obtain tr df where st: "st = (tr, df)" by (cases st)
  let ?tr0 = "if 0 < i then tr @ [Sleep DELAY_BETWEEN_TICKERS] else tr"
  obtain res st1 where r: "for_loop (ticker_attempt yf t0) [1..<RATE_LIMIT_RETRIES + 1] (?tr0, df) = (res, st1)"
    by (cases "for_loop (ticker_attempt yf t0) [1..<RATE_LIMIT_RETRIES + 1] (?tr0, df)")
  show ?case
  proof (cases "\<exists>e. res = Some (Some e)")
    case True
    with it st r show ?thesis by auto
  next
    case False
    have "for_loop (ticker_attempt yf t) [1..<RATE_LIMIT_RETRIES + 1] (?tr0, df) =
           (Some (Some YFOtherError), (?tr0 @ [Get (TickerHistory t)], df))"
      using assms by (rule ticker_always_failed)
    with False r have "t0 \<noteq> t" by auto
    with Cons.prems it have m: "t \<in> snd ` set its" by auto
    show ?thesis
    proof (cases "snd st1")
      case None
      with False it st r show ?thesis
        by (cases res; cases "the res") (auto split: option.splits)
    next
      case (Some f)
      let ?frames = "if f \<noteq> [] then frames @ [f] else frames"
      have "tickers_loop yf (it # its) frames st = tickers_loop yf its ?frames st1"
        using False it st r Some by (cases res; cases "the res") (auto split: option.splits)
      with Cons.IH [OF m, of ?frames st1] show ?thesis by simp
    qed
  qed
qed

lemma dropna_astype_int_append:
  "dropna_astype_int (xs @ ys) = dropna_astype_int xs @ dropna_astype_int ys"
  by (induction xs rule: dropna_astype_int.induct) simp_all

lemma set_dropna_concat:
  "set (dropna_astype_int (concat fs)) = (\<Union>f\<in>set fs. set (dropna_astype_int f))"
  by (induction fs) (simp_all add: dropna_astype_int_append)

lemma download_all_tickers_isolates:
  assumes "\<forall>t\<in>set tickers. \<forall>n. yf n t \<noteq> Failed"
  shows "\<exists>frame tr'. download_all_tickers yf tickers tr = (Inr frame, tr') \<and>
      (\<forall>t\<in>set tickers. (\<forall>n. yf n t = RateLimited) \<longrightarrow> Report (TickerHistory t) \<in> set tr') \<and>
      (\<forall>row\<in>set frame. \<exists>t\<in>set tickers. \<exists>n bars.
          yf n t = History bars \<and> row \<in> set (dropna_astype_int (ticker_frame t bars))) \<and>
      (\<forall>t\<in>set tickers. \<forall>bars. (\<forall>n. yf n t = History bars) \<longrightarrow>
          set (dropna_astype_int (ticker_frame t bars)) \<subseteq> set frame)"
proof -
  let ?its = "enumerate_from 0 tickers"
  have m: "snd ` set ?its = set tickers" by (rule snd_enumerate_from)
  have i1: "snd it \<in> set tickers" if "it \<in> set ?its" for it
    using m that by blast
  have i2: "\<exists>it\<in>set ?its. snd it = t" if "t \<in> set tickers" for t
    using m that by (metis imageE)
  have "\<forall>it\<in>set ?its. \<forall>n. yf n (snd it) \<noteq> Failed" using assms i1 by blast
  from tickers_loop_isolates [OF this, of "[]" tr None] obtain frames tr' where
    l: "tickers_loop yf ?its [] (tr, None) = (Inr frames, tr')"
    and og: "\<forall>f\<in>set frames. \<exists>it\<in>set ?its. \<exists>n bars. yf n (snd it) = History bars \<and> f = ticker_frame (snd it) bars"
    and rp: "\<forall>it\<in>set ?its. (\<forall>n. yf n (snd it) = RateLimited) \<longrightarrow> Report (TickerHistory (snd it)) \<in> set tr'"
    and pr: "\<forall>it\<in>set ?its. \<forall>bars. (\<forall>n. yf n (snd it) = History bars) \<longrightarrow>
          ticker_frame (snd it) bars = [] \<or> ticker_frame (snd it) bars \<in> set frames"
    by auto
  let ?frame = "if frames = [] then [] else sort_key fst (dropna_astype_int (concat frames))"
  have d: "download_all_tickers yf tickers tr = (Inr ?frame, tr')"
    by (simp add: download_all_tickers_def l)
  have s: "set ?frame = (\<Union>f\<in>set frames. set (dropna_astype_int f))"
    by (simp add: set_dropna_concat)
  have 1: "\<forall>t\<in>set tickers. (\<forall>n. yf n t = RateLimited) \<longrightarrow> Report (TickerHistory t) \<in> set tr'"
  proof (intro ballI impI)
    fix t assume "t \<in> set tickers" and al: "\<forall>n. yf n t = RateLimited"
    with i2 obtain it where "it \<in> set ?its" "snd it = t" by blast
    with rp al show "Report (TickerHistory t) \<in> set tr'" by blast
  qed
  have og': "\<forall>f\<in>set frames. \<exists>t\<in>set tickers. \<exists>n bars. yf n t = History bars \<and> f = ticker_frame t bars"
    using og i1 by blast
  have 2: "\<forall>row\<in>set ?frame. \<exists>t\<in>set tickers. \<exists>n bars.
          yf n t = History bars \<and> row \<in> set (dropna_astype_int (ticker_frame t bars))"
  proof
    fix row assume "row \<in> set ?frame"
    with s obtain f where f: "f \<in> set frames" and r: "row \<in> set (dropna_astype_int f)" by auto
    from og' f obtain t n bars where "t \<in> set tickers" "yf n t = History bars" "f = ticker_frame t bars"
      by blast
    with r show "\<exists>t\<in>set tickers. \<exists>n bars.
          yf n t = History bars \<and> row \<in> set (dropna_astype_int (ticker_frame t bars))" by blast
  qed
  have pr': "\<forall>t\<in>set tickers. \<forall>bars. (\<forall>n. yf n t = History bars) \<longrightarrow>
          ticker_frame t bars = [] \<or> ticker_frame t bars \<in> set frames"
  proof (intro ballI allI impI)
    fix t bars assume "t \<in> set tickers" and al: "\<forall>n. yf n t = History bars"
    with i2 obtain it where "it \<in> set ?its" "snd it = t" by blast
    with pr al show "ticker_frame t bars = [] \<or> ticker_frame t bars \<in> set frames" by blast
  qed
  have 3: "\<forall>t\<in>set tickers. \<forall>bars. (\<forall>n. yf n t = History bars) \<longrightarrow>
          set (dropna_astype_int (ticker_frame t bars)) \<subseteq> set ?frame"
  proof (intro ballI allI impI)
    fix t bars assume "t \<in> set tickers" "\<forall>n. yf n t = History bars"
    with pr' have "ticker_frame t bars = [] \<or> ticker_frame t bars \<in> set frames" by blast
    then show "set (dropna_astype_int (ticker_frame t bars)) \<subseteq> set ?frame"
    proof
      assume "ticker_frame t bars = []"
      then show ?thesis by simp
    next
      assume "ticker_frame t bars \<in> set frames"
      then show ?thesis unfolding s by blast
    qed
  qed
  from d 1 2 3 show ?thesis by blast
qed

lemma download_all_tickers_raises:
  assumes "t \<in> set tickers" "\<forall>n. yf n t = Failed"
  shows "\<exists>e tr'. download_all_tickers yf tickers tr = (Inl e, tr')"
proof -
  from assms(1) have "t \<in> snd ` set (enumerate_from 0 tickers)" by (simp add: snd_enumerate_from)
  with assms(2) have "\<exists>e tr'. tickers_loop yf (enumerate_from 0 tickers) [] (tr, None) = (Inl e, tr')"
    by (rule tickers_loop_raises [where yf = yf and t = t])
  then show ?thesis by (auto simp: download_all_tickers_def)
qed

text \<open>
  C5, as the code has it. Coins: a coin whose fetch fails on every try (connection error
  or an error status other than 429) is absent from the result and its failure is
  reported, and a coin that is served gets its data into the result, whatever happens to
  the other coins; the function has no way to raise. Tickers: when no download raises
  anything but the rate limit, the batch returns a frame; a ticker that is rate-limited
  on every try is reported as skipped and contributes no row, and a ticker that is served
  has its complete rows in the frame. A download exception other than the rate limit
  aborts the batch of tickers, and a page whose fetch fails aborts the batch of pages:
  the exception leaves \<^verbatim>\<open>fetch_all_pages\<close> and no data is returned.
\<close>

theorem failure_isolation_by_unit_kind:
  "(coin_always_fails srv c \<longrightarrow>
      c \<notin> fst ` set (fst (fetch_daily_prices_of coins srv tr)) \<and>
      (c \<in> set coins \<longrightarrow> Report (MarketChart c) \<in> set (snd (fetch_daily_prices_of coins srv tr)))) \<and>
   (c' \<in> set coins \<and> (\<forall>n. srv n (MarketChart c') = Response 200 (Some j)) \<longrightarrow>
      map_of (fst (fetch_daily_prices_of coins srv tr)) c' = Some j) \<and>
   ((\<forall>t\<in>set tickers. \<forall>n. yf n t \<noteq> Failed) \<longrightarrow>
      (\<exists>frame tr'. download_all_tickers yf tickers tr = (Inr frame, tr') \<and>
         (\<forall>t\<in>set tickers. (\<forall>n. yf n t = RateLimited) \<longrightarrow> Report (TickerHistory t) \<in> set tr') \<and>
         (\<forall>row\<in>set frame. \<exists>t\<in>set tickers. \<exists>n bars.
             yf n t = History bars \<and> row \<in> set (dropna_astype_int (ticker_frame t bars))) \<and>
         (\<forall>t\<in>set tickers. \<forall>bars. (\<forall>n. yf n t = History bars) \<longrightarrow>
             set (dropna_astype_int (ticker_frame t bars)) \<subseteq> set frame))) \<and>
   (t \<in> set tickers \<and> (\<forall>n. yf n t = Failed) \<longrightarrow>
      (\<exists>e tr'. download_all_tickers yf tickers tr = (Inl e, tr'))) \<and>
   (p \<in> set [1..<NUM_PAGES + 1] \<and> page_always_fails psrv p \<longrightarrow>
      (\<exists>e tr'. fetch_all_pages psrv tr = (Inl e, tr')))"
proof (intro conjI impI)
  assume a: "coin_always_fails srv c"
  show "c \<notin> fst ` set (fst (fetch_daily_prices_of coins srv tr))"
    unfolding fetch_daily_prices_of_def
    by (rule daily_prices_loop_absent [OF a]) simp
  assume "c \<in> set coins"
  then have "c \<in> snd ` set (enumerate_from 1 coins)" by (simp add: snd_enumerate_from)
  then show "Report (MarketChart c) \<in> set (snd (fetch_daily_prices_of coins srv tr))"
    unfolding fetch_daily_prices_of_def
    by (rule daily_prices_loop_reported [OF a])
next
  assume a: "c' \<in> set coins \<and> (\<forall>n. srv n (MarketChart c') = Response 200 (Some j))"
  then have ok: "\<forall>n. srv n (MarketChart c') = Response 200 (Some j)" by simp
  from a have "c' \<in> snd ` set (enumerate_from 1 coins)" by (simp add: snd_enumerate_from)
  then have "c' \<in> snd ` set (enumerate_from 1 coins) \<or> map_of [] c' = Some j" by simp
  with ok show "map_of (fst (fetch_daily_prices_of coins srv tr)) c' = Some j"
    unfolding fetch_daily_prices_of_def
    by (rule daily_prices_loop_present)
next
  assume "\<forall>t\<in>set tickers. \<forall>n. yf n t \<noteq> Failed"
  then show "\<exists>frame tr'. download_all_tickers yf tickers tr = (Inr frame, tr') \<and>
         (\<forall>t\<in>set tickers. (\<forall>n. yf n t = RateLimited) \<longrightarrow> Report (TickerHistory t) \<in> set tr') \<and>
         (\<forall>row\<in>set frame. \<exists>t\<in>set tickers. \<exists>n bars.
             yf n t = History bars \<and> row \<in> set (dropna_astype_int (ticker_frame t bars))) \<and>
         (\<forall>t\<in>set tickers. \<forall>bars. (\<forall>n. yf n t = History bars) \<longrightarrow>
             set (dropna_astype_int (ticker_frame t bars)) \<subseteq> set frame)"
    by (rule download_all_tickers_isolates)
next
  assume "t \<in> set tickers \<and> (\<forall>n. yf n t = Failed)"
  then show "\<exists>e tr'. download_all_tickers yf tickers tr = (Inl e, tr')"
    by (intro download_all_tickers_raises [of t]) simp_all
next
  assume a: "p \<in> set [1..<NUM_PAGES + 1] \<and> page_always_fails psrv p"
  then have "page_always_fails psrv p" and "p \<in> set [1..<NUM_PAGES + 1]" by simp_all
  then show "\<exists>e tr'. fetch_all_pages psrv tr = (Inl e, tr')"
    unfolding fetch_all_pages_def by (rule all_pages_loop_fails)
qed

text \<open>
  The claim as stated fails for pages: with page 2 answering status 500, the batch ends
  in the \<^verbatim>\<open>HTTPError\<close> of that page after two requests; pages 3 to 5 are not fetched and
  the coins of page 1 are not returned.
\<close>

theorem page_failure_aborts_batch_counterexample:
  "fetch_all_pages page_two_down []
     = (Inl (HTTPError 500), [Get (MarketsPage 1), Sleep 15, Get (MarketsPage 2)])"
  by code_simp

text \<open>
  An instance: with tether answering 500, tether is absent from the result of the coin
  batch and reported, and bitcoin is in it; with \<^verbatim>\<open>^IXIC\<close> rate-limited on every try, the
  batch of \<^verbatim>\<open>TICKERS\<close> returns a frame and reports the skip; with every download raising
  another exception the batch of tickers raises; with page 2 answering 500 the batch of
  pages raises.
\<close>

theorem failure_isolation_by_unit_kind_witness:
  "''tether'' \<notin> fst ` set (fst (fetch_daily_prices_of TOP_COIN_IDS tether_down [])) \<and>
   Report (MarketChart ''tether'') \<in> set (snd (fetch_daily_prices_of TOP_COIN_IDS tether_down [])) \<and>
   map_of (fst (fetch_daily_prices_of TOP_COIN_IDS tether_down [])) ''bitcoin'' = Some 7 \<and>
   \<not> isl (fst (download_all_tickers second_limited TICKERS [])) \<and>
   Report (TickerHistory ''^IXIC'') \<in> set (snd (download_all_tickers second_limited TICKERS [])) \<and>
   isl (fst (download_all_tickers (\<lambda>n t. Failed) TICKERS [])) \<and>
   isl (fst (fetch_all_pages page_two_down []))"
proof -
  have h1: "coin_always_fails tether_down ''tether''"
    by (simp add: coin_always_fails_def tether_down_def failing_reply_def throttled_reply_def
        is_error_status_def)
  have h2: "''tether'' \<in> set TOP_COIN_IDS" by (simp add: TOP_COIN_IDS_def)
  have h3: "''bitcoin'' \<in> set TOP_COIN_IDS \<and>
      (\<forall>n. tether_down n (MarketChart ''bitcoin'') = Response 200 (Some 7))"
    by (simp add: TOP_COIN_IDS_def tether_down_def)
  have h4: "\<forall>t\<in>set TICKERS. \<forall>n. second_limited n t \<noteq> Failed"
    by (simp add: second_limited_def)
  have h5: "''^IXIC'' \<in> set TICKERS" and h6: "\<forall>n. second_limited n ''^IXIC'' = RateLimited"
    by (simp_all add: TICKERS_def second_limited_def)
  have h7: "''^GSPC'' \<in> set TICKERS \<and> (\<forall>n. (\<lambda>n t. Failed) n ''^GSPC'' = Failed)"
    by (simp add: TICKERS_def)
  have h8: "2 \<in> set [1..<NUM_PAGES + 1] \<and> page_always_fails page_two_down 2"
    by (simp add: NUM_PAGES_def page_always_fails_def page_two_down_def failing_reply_def
        is_error_status_def)
  note a = failure_isolation_by_unit_kind [where srv = tether_down and c = "''tether''"
      and coins = TOP_COIN_IDS and tr = "[]" and c' = "''bitcoin''" and j = 7
      and yf = second_limited and tickers = TICKERS and t = "''^IXIC''"
      and psrv = page_two_down and p = 2]
  note b = failure_isolation_by_unit_kind [where srv = tether_down and c = "''tether''"
      and coins = TOP_COIN_IDS and tr = "[]" and c' = "''bitcoin''" and j = 7
      and yf = "\<lambda>n t. Failed" and tickers = TICKERS and t = "''^GSPC''"
      and psrv = page_two_down and p = 2]
  from a h1 h2 have 1: "''tether'' \<notin> fst ` set (fst (fetch_daily_prices_of TOP_COIN_IDS tether_down []))"
    and 2: "Report (MarketChart ''tether'') \<in> set (snd (fetch_daily_prices_of TOP_COIN_IDS tether_down []))"
    by blast+
  from a h3 have 3: "map_of (fst (fetch_daily_prices_of TOP_COIN_IDS tether_down [])) ''bitcoin'' = Some 7"
    by blast
  from a h4 obtain frame tr' where
    d: "download_all_tickers second_limited TICKERS [] = (Inr frame, tr')"
    and r: "\<forall>t\<in>set TICKERS. (\<forall>n. second_limited n t = RateLimited) \<longrightarrow> Report (TickerHistory t) \<in> set tr'"
    by blast
  from r h5 h6 have "Report (TickerHistory ''^IXIC'') \<in> set tr'" by blast
  with d have 4: "\<not> isl (fst (download_all_tickers second_limited TICKERS []))"
    and 5: "Report (TickerHistory ''^IXIC'') \<in> set (snd (download_all_tickers second_limited TICKERS []))"
    by simp_all
  from b h7 obtain e tr2 where "download_all_tickers (\<lambda>n t. Failed) TICKERS [] = (Inl e, tr2)"
    by blast
  then have 6: "isl (fst (download_all_tickers (\<lambda>n t. Failed) TICKERS []))" by simp
  from a h8 obtain e3 tr3 where "fetch_all_pages page_two_down [] = (Inl e3, tr3)" by blast
  then have 7: "isl (fst (fetch_all_pages page_two_down []))" by simp
  from 1 2 3 4 5 6 7 show ?thesis by blast
qed

end
